theory Spec2Isabelle
  imports Complex_Main "HOL-Library.Sublist"
begin

section \<open>Time\<close>

text \<open>
  The scheduler of \<^verbatim>\<open>src/scheduler.py\<close> works on naive local \<^verbatim>\<open>datetime\<close> values and on
  Python floats. A \<open>datetime\<close> is modelled as the number of minutes since midnight of a
  reference day, a real number; a float is a real number too, so float rounding and the
  microsecond rounding of \<^verbatim>\<open>timedelta(minutes=x)\<close> are idealised away:
  \<^verbatim>\<open>t + timedelta(minutes=x)\<close> is \<open>t + x\<close>. A \<^verbatim>\<open>datetime\<close> beyond year 9999 (an
  OverflowError in Python) is out of the model's reach: the intervals added are bounded
  by the hours left in a day.
\<close>

type_synonym datetime = real

definition day_of :: "datetime \<Rightarrow> int" where
  \<comment> \<open>the calendar date, as a day number\<close>
  "day_of t = \<lfloor>t / 1440\<rfloor>"

definition hour :: "datetime \<Rightarrow> nat" where
  \<comment> \<open>\<^verbatim>\<open>t.hour\<close>\<close>
  "hour t = nat (\<lfloor>t / 60\<rfloor> mod 24)"

definition minute :: "datetime \<Rightarrow> nat" where
  \<comment> \<open>\<^verbatim>\<open>t.minute\<close>\<close>
  "minute t = nat (\<lfloor>t\<rfloor> mod 60)"

definition replace_hour_minute :: "datetime \<Rightarrow> nat \<Rightarrow> nat \<Rightarrow> datetime" where
  \<comment> \<open>\<^verbatim>\<open>t.replace(hour=h, minute=m)\<close>: the date, the seconds and the microseconds stay\<close>
  "replace_hour_minute t h m =
     of_int (day_of t) * 1440 + of_nat h * 60 + of_nat m + (t - of_int \<lfloor>t\<rfloor>)"

definition end_of_day :: "datetime \<Rightarrow> datetime" where
  \<comment> \<open>\<^verbatim>\<open>now.replace(hour=23, minute=59, second=59, microsecond=999999)\<close>\<close>
  "end_of_day t = of_int (day_of t) * 1440 + 1440 - 1 / 60000000"

section \<open>The random source\<close>

text \<open>
  \<^verbatim>\<open>random.uniform(a, b)\<close> is \<^verbatim>\<open>a + (b - a) * random()\<close> with \<^verbatim>\<open>random()\<close> in the unit
  interval, and \<^verbatim>\<open>random.randint(0, 59)\<close> is an integer from 0 to 59. The planner's loop
  calls \<^verbatim>\<open>uniform\<close> once in every iteration and \<^verbatim>\<open>randint\<close> at most once, so a run of the
  random module is given by two functions of the iteration index: \<open>uniform01 rng i\<close> is
  what \<^verbatim>\<open>random()\<close> returns inside the \<^verbatim>\<open>uniform\<close> call of iteration \<open>i\<close>, and
  \<open>randint59 rng i\<close> is what \<^verbatim>\<open>randint(0, 59)\<close> returns there. With the source fixed
  (seeded), every function below is a function of its arguments. How the values are
  distributed is not modelled, only their ranges (\<open>rng_ok\<close>).
\<close>

record random_source =
  uniform01 :: "nat \<Rightarrow> real"
  randint59 :: "nat \<Rightarrow> nat"

definition rng_ok :: "random_source \<Rightarrow> bool" where
  "rng_ok rng =
     (\<forall>k. 0 \<le> uniform01 rng k \<and> uniform01 rng k \<le> 1 \<and> randint59 rng k \<le> 59)"

definition uniform :: "real \<Rightarrow> real \<Rightarrow> real \<Rightarrow> real" where
  "uniform r a b = a + (b - a) * r"

section \<open>The slot planner (\<^verbatim>\<open>PostScheduler.distribute_posts_intelligently\<close>)\<close>

definition MIN_INTERVAL_MINUTES :: real where
  "MIN_INTERVAL_MINUTES = 30"

definition MAX_INTERVAL_MINUTES :: real where
  "MAX_INTERVAL_MINUTES = 240"

definition RANDOM_POSTS_PER_DAY :: int where
  "RANDOM_POSTS_PER_DAY = 5"

definition calculate_time_remaining_today :: "datetime \<Rightarrow> real" where
  \<comment> \<open>hours until 23:59:59.999999: \<^verbatim>\<open>(midnight - now).total_seconds() / 3600\<close>\<close>
  "calculate_time_remaining_today now = (end_of_day now - now) * 60 / 3600"

definition min_interval :: "int \<Rightarrow> real \<Rightarrow> real" where
  \<comment> \<open>line 52, with \<^verbatim>\<open>minutes_remaining = hours_remaining * 60\<close>\<close>
  "min_interval num_posts hours_remaining =
     max MIN_INTERVAL_MINUTES (hours_remaining * 60 / (of_int num_posts + 1))"

definition max_interval :: "int \<Rightarrow> real \<Rightarrow> real" where
  \<comment> \<open>lines 53 and 56\<close>
  "max_interval num_posts hours_remaining =
     max (min MAX_INTERVAL_MINUTES (hours_remaining * 60 / of_int num_posts))
         (min_interval num_posts hours_remaining)"

definition draw_interval :: "random_source \<Rightarrow> real \<Rightarrow> real \<Rightarrow> nat \<Rightarrow> real" where
  \<comment> \<open>lines 66 to 71: the interval of iteration \<open>i\<close>\<close>
  "draw_interval rng lo hi i =
     (if i = 0 then uniform (uniform01 rng i) lo (lo * 2)
      else uniform (uniform01 rng i) lo hi)"

text \<open>
  The loop \<^verbatim>\<open>for i in range(num_posts)\<close>: \<open>i\<close> is the index, the next argument counts the
  iterations left, \<open>current_time\<close> is the loop variable of that name. The result is
  \<^verbatim>\<open>post_times\<close> in the order of the appends.
\<close>

fun distribute_loop ::
  "random_source \<Rightarrow> real \<Rightarrow> real \<Rightarrow> nat \<Rightarrow> nat \<Rightarrow> datetime \<Rightarrow> datetime list" where
  "distribute_loop rng lo hi i 0 current_time = []"
| "distribute_loop rng lo hi i (Suc k) current_time =
     (let interval = draw_interval rng lo hi i;
          post_time = current_time + interval;
          post_time = (if hour post_time \<ge> 23
                       then replace_hour_minute post_time 22 (randint59 rng i)
                       else post_time)
      in post_time # distribute_loop rng lo hi (Suc i) k post_time)"

definition distribute_posts_intelligently ::
  "random_source \<Rightarrow> datetime \<Rightarrow> int \<Rightarrow> real \<Rightarrow> datetime list" where
  \<comment> \<open>\<open>now\<close> is what \<^verbatim>\<open>datetime.now()\<close> returns at line 62\<close>
  "distribute_posts_intelligently rng now num_posts hours_remaining =
     (if num_posts \<le> 0 \<or> hours_remaining \<le> 0 then []
      else sort (distribute_loop rng
                   (min_interval num_posts hours_remaining)
                   (max_interval num_posts hours_remaining)
                   0 (nat num_posts) now))"

section \<open>The persistence collaborator (\<^verbatim>\<open>src/database.py\<close>)\<close>

text \<open>
  The table \<^verbatim>\<open>posts\<close> with the columns the scheduler's queries read. \<open>reachable\<close> says
  whether a statement runs: when it does not, the driver raises \<^verbatim>\<open>mysql.connector.Error\<close>,
  which \<^verbatim>\<open>get_today_posts_count\<close> and \<^verbatim>\<open>log_post\<close> catch. The connection object itself
  exists: the bot plans only after \<^verbatim>\<open>connect()\<close> returned \<^verbatim>\<open>True\<close>.
\<close>

datatype post_status = SUCCESS | FAILURE

record post_row =
  row_post_type :: string
  row_timestamp :: datetime
  row_status :: post_status

record database =
  reachable :: bool
  posts :: "post_row list"

definition get_today_posts_count :: "database \<Rightarrow> datetime \<Rightarrow> string option \<Rightarrow> nat" where
  \<comment> \<open>\<^verbatim>\<open>if post_type:\<close> is false for \<^verbatim>\<open>None\<close> and for the empty string;
      \<^verbatim>\<open>CURDATE()\<close> is the date of \<open>now\<close>; \<^verbatim>\<open>except Error: return 0\<close>\<close>
  "get_today_posts_count db now post_type =
     (if \<not> reachable db then 0
      else if post_type \<noteq> None \<and> post_type \<noteq> Some []
      then length (filter (\<lambda>r. day_of (row_timestamp r) = day_of now \<and>
                                  Some (row_post_type r) = post_type) (posts db))
      else length (filter (\<lambda>r. day_of (row_timestamp r) = day_of now) (posts db)))"

definition log_post :: "database \<Rightarrow> datetime \<Rightarrow> string \<Rightarrow> post_status \<Rightarrow> database" where
  \<comment> \<open>the row is stamped \<^verbatim>\<open>datetime.now()\<close>; a driver error is logged and swallowed\<close>
  "log_post db now post_type status =
     (if \<not> reachable db then db
      else db\<lparr>posts := posts db @
             [\<lparr>row_post_type = post_type, row_timestamp = now, row_status = status\<rparr>]\<rparr>)"

section \<open>The job registry (the \<^verbatim>\<open>schedule\<close> package)\<close>

text \<open>
  The scheduler keeps its jobs in the process-wide registry of the third-party package
  \<^verbatim>\<open>schedule\<close>, which is not part of the repository. The three calls the repository
  makes are modelled after that package's behaviour:
  \<^item> \<^verbatim>\<open>schedule.every().day.at("HH:MM").do(f, ...).tag(t)\<close> appends to \<^verbatim>\<open>schedule.jobs\<close>
    a job that runs \<^verbatim>\<open>f\<close> every day at that clock time (second 0), with the tag set
    \<open>{t}\<close>. Its first run is the next moment with that clock time: today when the time
    is still ahead of the clock, otherwise tomorrow.
  \<^item> \<^verbatim>\<open>schedule.clear()\<close> empties the list.
  \<^item> \<^verbatim>\<open>schedule.clear(tag)\<close> keeps \<^verbatim>\<open>job for job in self.jobs if tag not in job.tags\<close>;
    \<^verbatim>\<open>job.tags\<close> is a set, so a job goes when it carries exactly that tag. Both return
    \<^verbatim>\<open>None\<close>.
  A job's function is either the bot's \<^verbatim>\<open>post_callback\<close> with its \<^verbatim>\<open>post_type\<close>, or
  \<^verbatim>\<open>send_notification\<close> with its title and message.
\<close>

datatype job_action =
  PostCallback string
| SendNotification string string

record job =
  at_time :: "nat \<times> nat"
  next_run :: datetime
  job_func :: job_action
  tags :: "string set"

definition first_run :: "datetime \<Rightarrow> nat \<times> nat \<Rightarrow> datetime" where
  "first_run now hm =
     (let today = of_int (day_of now) * 1440 + of_nat (fst hm) * 60 + of_nat (snd hm)
      in if now < today then today else today + 1440)"

definition new_job :: "datetime \<Rightarrow> nat \<times> nat \<Rightarrow> job_action \<Rightarrow> string \<Rightarrow> job" where
  "new_job now hm f t =
     \<lparr>at_time = hm, next_run = first_run now hm, job_func = f, tags = {t}\<rparr>"

definition every_day_at_do ::
  "datetime \<Rightarrow> nat \<times> nat \<Rightarrow> job_action \<Rightarrow> string \<Rightarrow> job list \<Rightarrow> job list" where
  "every_day_at_do now hm f t jobs = jobs @ [new_job now hm f t]"

definition clear :: "string option \<Rightarrow> job list \<Rightarrow> job list" where
  "clear t jobs =
     (case t of None \<Rightarrow> [] | Some s \<Rightarrow> filter (\<lambda>j. s \<notin> tags j) jobs)"

section \<open>Strings\<close>

definition digit :: "nat \<Rightarrow> char" where
  "digit d = ''0123456789'' ! (d mod 10)"

fun str :: "nat \<Rightarrow> string" where
  \<comment> \<open>\<^verbatim>\<open>str(i)\<close> of a non-negative integer, as an f-string renders \<^verbatim>\<open>{i}\<close>\<close>
  "str n = (if n < 10 then [digit n] else str (n div 10) @ [digit n])"

declare str.simps [simp del]

definition strftime_HM :: "datetime \<Rightarrow> string" where
  \<comment> \<open>\<^verbatim>\<open>t.strftime("%H:%M")\<close>\<close>
  "strftime_HM t =
     [digit (hour t div 10), digit (hour t), CHR '':'', digit (minute t div 10), digit (minute t)]"

definition clock :: "datetime \<Rightarrow> nat \<times> nat" where
  \<comment> \<open>the time of day that \<^verbatim>\<open>.at(t.strftime("%H:%M"))\<close> stores\<close>
  "clock t = (hour t, minute t)"

section \<open>The scheduler (\<^verbatim>\<open>PostScheduler\<close>)\<close>

definition SCHEDULED_POST_TIME :: "nat \<times> nat" where
  \<comment> \<open>\<^verbatim>\<open>"12:00"\<close>\<close>
  "SCHEDULED_POST_TIME = (12, 0)"

definition strptime_HM :: "nat \<times> nat \<Rightarrow> datetime" where
  \<comment> \<open>\<^verbatim>\<open>datetime.strptime(s, "%H:%M")\<close>: that clock time on the reference day\<close>
  "strptime_HM hm = of_nat (fst hm) * 60 + of_nat (snd hm)"

definition calculate_remaining_posts :: "database \<Rightarrow> datetime \<Rightarrow> int" where
  \<comment> \<open>the total count of line 25 is only logged\<close>
  "calculate_remaining_posts db now =
     (let random_posts_today = get_today_posts_count db now (Some ''RANDOM'')
      in max 0 (RANDOM_POSTS_PER_DAY - int random_posts_today))"

text \<open>
  The loop of lines 101 to 114, \<^verbatim>\<open>for i, post_time in enumerate(post_times)\<close>; \<open>i\<close> is the
  index of the head of the list. \<^verbatim>\<open>timedelta(hours=1)\<close> is 60 minutes.
\<close>

fun install_posts :: "datetime \<Rightarrow> nat \<Rightarrow> datetime list \<Rightarrow> job list \<Rightarrow> job list" where
  "install_posts now i [] jobs = jobs"
| "install_posts now i (post_time # post_times) jobs =
     (let jobs = every_day_at_do now (clock post_time) (PostCallback ''RANDOM'')
                   (''random_post_'' @ str i) jobs;
          notify_time = clock (post_time - 60);
          jobs = every_day_at_do now notify_time
                   (SendNotification ''Upcoming Post''
                      (''A RANDOM post is scheduled at '' @ strftime_HM post_time))
                   (''notify_random_post_'' @ str i) jobs
      in install_posts now (Suc i) post_times jobs)"

text \<open>
  The clock is read several times while a plan is made (by the planner, by
  \<^verbatim>\<open>calculate_time_remaining_today\<close>, by the registry, by the database server); the model
  takes one reading \<open>now\<close> for all of them.
\<close>

definition schedule_remaining_posts ::
  "random_source \<Rightarrow> database \<Rightarrow> datetime \<Rightarrow> job list \<Rightarrow> job list" where
  "schedule_remaining_posts rng db now jobs =
     (let remaining_posts = calculate_remaining_posts db now in
      if remaining_posts = 0 then jobs
      else let hours_remaining = calculate_time_remaining_today now in
        if hours_remaining \<le> 0 then jobs
        else install_posts now 0
               (distribute_posts_intelligently rng now remaining_posts hours_remaining) jobs)"

definition schedule_daily_post :: "datetime \<Rightarrow> job list \<Rightarrow> job list" where
  "schedule_daily_post now jobs =
     (let jobs = every_day_at_do now SCHEDULED_POST_TIME (PostCallback ''SCHEDULED'')
                   ''daily_post'' jobs;
          notify_time = clock (strptime_HM SCHEDULED_POST_TIME - 60)
      in every_day_at_do now notify_time
           (SendNotification ''Upcoming Post'' ''A SCHEDULED post is at 12:00'')
           ''notify_daily_post'' jobs)"

definition clear_all_schedules :: "job list \<Rightarrow> job list" where
  "clear_all_schedules jobs = clear None jobs"

definition clear_random_posts :: "job list \<Rightarrow> job list" where
  "clear_random_posts jobs = clear (Some ''random_post'') jobs"

definition initialize_daily_schedule ::
  "random_source \<Rightarrow> database \<Rightarrow> datetime \<Rightarrow> job list \<Rightarrow> job list" where
  "initialize_daily_schedule rng db now jobs =
     schedule_remaining_posts rng db now (schedule_daily_post now (clear_all_schedules jobs))"

section \<open>The bot (\<^verbatim>\<open>AutomatedPosterBot\<close>)\<close>

text \<open>
  The state a callback works on is the table of posts and the registry of jobs. What the
  publish endpoint answers is an input: \<open>Published\<close> (\<^verbatim>\<open>result['success']\<close> is true),
  \<open>Rejected\<close> (it is false), or \<open>Crashed\<close> (an exception inside \<^verbatim>\<open>make_post\<close>, caught by
  its \<^verbatim>\<open>except Exception\<close>). Whether \<^verbatim>\<open>send_notification\<close> returns is an input as well:
  nothing in \<^verbatim>\<open>post_callback\<close> catches its exception, which then leaves the callback
  before the re-plan, so the callback's result says whether it returned (\<open>True\<close>) or
  raised. The text of the notification is not part of the state.
\<close>

datatype publish_result = Published | Rejected | Crashed

record bot_state =
  database_manager :: database
  schedule_jobs :: "job list"

definition make_post :: "publish_result \<Rightarrow> database \<Rightarrow> datetime \<Rightarrow> string \<Rightarrow> database \<times> bool" where
  "make_post res d now post_type =
     (case res of
        Published \<Rightarrow> (log_post d now post_type SUCCESS, True)
      | Rejected \<Rightarrow> (log_post d now post_type FAILURE, False)
      | Crashed \<Rightarrow> (log_post d now post_type FAILURE, False))"

definition post_callback ::
  "random_source \<Rightarrow> publish_result \<Rightarrow> bool \<Rightarrow> datetime \<Rightarrow> string \<Rightarrow> bot_state \<Rightarrow> bot_state \<times> bool" where
  "post_callback rng res notified now post_type st =
     (let (d, success) = make_post res (database_manager st) now post_type in
      if \<not> notified then (st\<lparr>database_manager := d\<rparr>, False)
      else if success \<and> post_type = ''RANDOM''
      then (st\<lparr>database_manager := d,
               schedule_jobs := schedule_remaining_posts rng d now (schedule_jobs st)\<rparr>, True)
      else (st\<lparr>database_manager := d\<rparr>, True))"

section \<open>Dispatch (\<^verbatim>\<open>schedule.run_pending\<close>)\<close>

text \<open>
  \<^verbatim>\<open>PostScheduler.run_scheduler\<close> calls \<^verbatim>\<open>schedule.run_pending()\<close> once a minute. In the
  \<^verbatim>\<open>schedule\<close> package a job should run when \<^verbatim>\<open>datetime.now() >= job.next_run\<close>;
  \<^verbatim>\<open>run_pending\<close> takes the jobs that should run, sorted by \<^verbatim>\<open>next_run\<close>, and runs each:
  \<^verbatim>\<open>Job.run\<close> calls the job's function and then sets \<^verbatim>\<open>next_run\<close> to the next moment with
  the job's clock time (\<^verbatim>\<open>_schedule_next_run\<close>, the computation of the first run). A job
  is cancelled only when its function returns \<^verbatim>\<open>CancelJob\<close>; \<^verbatim>\<open>post_callback\<close> and
  \<^verbatim>\<open>send_notification\<close> return \<^verbatim>\<open>None\<close>, so every job stays in the list. An exception
  of the job's function leaves \<^verbatim>\<open>Job.run\<close> before the job is re-armed and ends the pass;
  \<^verbatim>\<open>run_scheduler\<close> logs it and goes on with the next pass.

  A job is named by its index in the list: the callbacks only append to the list. What
  the world answers while the job at index \<open>k\<close> runs is an input: the publish result,
  whether the notification call returns, and the values the random module returns for a
  new plan.
\<close>

record environment =
  publish :: "nat \<Rightarrow> publish_result"
  notifier_ok :: "nat \<Rightarrow> bool"
  randoms :: "nat \<Rightarrow> random_source"

definition should_run :: "datetime \<Rightarrow> job \<Rightarrow> bool" where
  "should_run now j = (next_run j \<le> now)"

definition run_job :: "environment \<Rightarrow> datetime \<Rightarrow> nat \<Rightarrow> bot_state \<Rightarrow> bot_state \<times> bool" where
  \<comment> \<open>\<^verbatim>\<open>Job.run\<close> for the job at index \<open>k\<close>; the result says whether it returned\<close>
  "run_job env now k st =
     (let j = schedule_jobs st ! k;
          (st, returned) =
            (case job_func j of
               PostCallback post_type \<Rightarrow>
                 post_callback (randoms env k) (publish env k) (notifier_ok env k) now post_type st
             | SendNotification title message \<Rightarrow> (st, notifier_ok env k))
      in if \<not> returned then (st, False)
         else (st\<lparr>schedule_jobs :=
                    (schedule_jobs st)[k := j\<lparr>next_run := first_run now (at_time j)\<rparr>]\<rparr>,
               True))"

fun run_jobs :: "environment \<Rightarrow> datetime \<Rightarrow> nat list \<Rightarrow> bot_state \<Rightarrow> bot_state \<times> bool" where
  "run_jobs env now [] st = (st, True)"
| "run_jobs env now (k # ks) st =
     (let (st, returned) = run_job env now k st
      in if returned then run_jobs env now ks st else (st, False))"

definition run_pending :: "environment \<Rightarrow> datetime \<Rightarrow> bot_state \<Rightarrow> bot_state \<times> bool" where
  "run_pending env now st =
     (let runnable_jobs = filter (\<lambda>k. should_run now (schedule_jobs st ! k))
                            [0..<length (schedule_jobs st)]
      in run_jobs env now (sort_key (\<lambda>k. next_run (schedule_jobs st ! k)) runnable_jobs) st)"

section \<open>Properties of the slot planner\<close>

subsection \<open>Clock arithmetic\<close>

lemma length_distribute_loop: "length (distribute_loop rng lo hi i k cur) = k"
  by (induction k arbitrary: i cur) (simp_all add: Let_def)

lemma floor_replace:
  "\<lfloor>replace_hour_minute t h m\<rfloor> = day_of t * 1440 + int h * 60 + int m"
proof -
  have "0 \<le> t - of_int \<lfloor>t\<rfloor>" "t - of_int \<lfloor>t\<rfloor> < 1" by linarith+
  then show ?thesis
    unfolding replace_hour_minute_def by (intro floor_unique) simp_all
qed

lemma floor_div60: "\<lfloor>(t::real) / 60\<rfloor> = \<lfloor>t\<rfloor> div 60"
  using floor_divide_real_eq_div [of 60 t] by simp

lemma floor_div1440: "\<lfloor>(t::real) / 1440\<rfloor> = \<lfloor>t\<rfloor> div 1440"
  using floor_divide_real_eq_div [of 1440 t] by simp

lemma floor_replace_split:
  "m \<le> 59 \<Longrightarrow> (day_of t * 1440 + int h * 60 + int m) div 60 = day_of t * 24 + int h"
  "m \<le> 59 \<Longrightarrow> (day_of t * 1440 + int h * 60 + int m) mod 60 = int m"
proof -
  assume m: "m \<le> 59"
  have e: "day_of t * 1440 + int h * 60 + int m = int m + (day_of t * 24 + int h) * 60"
    by simp
  show "(day_of t * 1440 + int h * 60 + int m) div 60 = day_of t * 24 + int h"
    unfolding e using m by simp
  have "(int m + (day_of t * 24 + int h) * 60) mod 60 = int m mod 60"
    by (rule mod_mult_self1)
  then show "(day_of t * 1440 + int h * 60 + int m) mod 60 = int m"
    unfolding e using m by simp
qed

lemma hour_replace: "h \<le> 23 \<Longrightarrow> m \<le> 59 \<Longrightarrow> hour (replace_hour_minute t h m) = h"
proof -
  assume h: "h \<le> 23" and m: "m \<le> 59"
  have "(day_of t * 24 + int h) mod 24 = int h"
    using h by simp
  then show ?thesis
    unfolding hour_def floor_div60 floor_replace floor_replace_split(1) [OF m] by simp
qed

lemma minute_replace: "m \<le> 59 \<Longrightarrow> minute (replace_hour_minute t h m) = m"
  unfolding minute_def floor_replace by (simp add: floor_replace_split(2))

lemma day_of_replace:
  "h \<le> 23 \<Longrightarrow> m \<le> 59 \<Longrightarrow> day_of (replace_hour_minute t h m) = day_of t"
proof -
  assume h: "h \<le> 23" and m: "m \<le> 59"
  have e: "day_of t * 1440 + int h * 60 + int m = (int h * 60 + int m) + day_of t * 1440"
    by simp
  have "(day_of t * 1440 + int h * 60 + int m) div 1440 = day_of t"
    unfolding e using h m by simp
  then show ?thesis
    unfolding day_of_def [of "replace_hour_minute t h m"] floor_div1440 floor_replace .
qed

lemma seconds_replace:
  "replace_hour_minute t h m - of_int \<lfloor>replace_hour_minute t h m\<rfloor> = t - of_int \<lfloor>t\<rfloor>"
  unfolding floor_replace by (simp add: replace_hour_minute_def)




lemma draw_interval_bounds:
  assumes "0 \<le> uniform01 rng i" "uniform01 rng i \<le> 1" "0 \<le> lo" "lo \<le> hi"
  shows "lo \<le> draw_interval rng lo hi i"
    and "i = 0 \<Longrightarrow> draw_interval rng lo hi i \<le> 2 * lo"
    and "0 < i \<Longrightarrow> draw_interval rng lo hi i \<le> hi"
proof -
  let ?u = "uniform01 rng i"
  have a: "0 \<le> (hi - lo) * ?u" "(hi - lo) * ?u \<le> hi - lo"
    using assms by (simp_all add: mult_left_le)
  have b: "0 \<le> lo * ?u" "lo * ?u \<le> lo"
    using assms by (simp_all add: mult_left_le)
  show "lo \<le> draw_interval rng lo hi i"
    using a b by (auto simp add: draw_interval_def uniform_def)
  show "draw_interval rng lo hi i \<le> 2 * lo" if "i = 0"
    using b unfolding that by (simp add: draw_interval_def uniform_def)
  show "draw_interval rng lo hi i \<le> hi" if "0 < i"
    using a that by (simp add: draw_interval_def uniform_def)
qed

lemma min_interval_ge: "MIN_INTERVAL_MINUTES \<le> min_interval n h"
  by (simp add: min_interval_def)

lemma min_interval_pos: "0 < min_interval n h"
  using min_interval_ge [of n h] by (simp add: MIN_INTERVAL_MINUTES_def)

lemma min_le_max_interval: "min_interval n h \<le> max_interval n h"
  by (simp add: max_interval_def)

lemma loop_hours:
  "rng_ok rng \<Longrightarrow> t \<in> set (distribute_loop rng lo hi i k cur) \<Longrightarrow> hour t \<le> 22"
proof (induction k arbitrary: i cur)
  case 0
  then show ?case by simp
next
  case (Suc k)
  have m: "randint59 rng i \<le> 59"
    using Suc.prems(1) by (simp add: rng_ok_def)
  show ?case
    using Suc.prems(2) Suc.IH [OF Suc.prems(1)] hour_replace [OF _ m, of 22]
    by (auto simp add: Let_def split: if_splits)
qed


lemma loop_nth:
  "j < k \<Longrightarrow>
   distribute_loop rng lo hi i k cur ! j =
     (let prev = (if j = 0 then cur else distribute_loop rng lo hi i k cur ! (j - 1));
          post_time = prev + draw_interval rng lo hi (i + j)
      in if 23 \<le> hour post_time
         then replace_hour_minute post_time 22 (randint59 rng (i + j))
         else post_time)"
proof (induction k arbitrary: i cur j)
  case 0
  then show ?case by simp
next
  case (Suc k)
  show ?case
  proof (cases j)
    case 0
    then show ?thesis by (simp add: Let_def)
  next
    case (Suc j')
    then have "j' < k" using Suc.prems by simp
    from Suc.IH [OF this] show ?thesis
      unfolding Suc by (cases j') (simp_all add: Let_def)
  qed
qed

lemma loop_no_clamp:
  "(\<And>j. j < k \<Longrightarrow> hour (cur + sum (draw_interval rng lo hi) {i..i + j}) < 23) \<Longrightarrow>
   distribute_loop rng lo hi i k cur =
     map (\<lambda>j. cur + sum (draw_interval rng lo hi) {i..i + j}) [0..<k]"
proof (induction k arbitrary: i cur)
  case 0
  then show ?case by simp
next
  case (Suc k)
  let ?d = "draw_interval rng lo hi"
  have h0: "hour (cur + ?d i) < 23"
    using Suc.prems [of 0] by simp
  have sh: "cur + sum ?d {i..i + Suc j} = cur + ?d i + sum ?d {Suc i..Suc i + j}" for j
    by (simp add: sum.atLeast_Suc_atMost)
  have "hour (cur + ?d i + sum ?d {Suc i..Suc i + j}) < 23" if "j < k" for j
    using Suc.prems [of "Suc j"] that unfolding sh by simp
  from Suc.IH [of "cur + ?d i" "Suc i", OF this]
  show ?case
    using h0 unfolding map_upt_Suc sh by (simp add: Let_def)
qed


subsection \<open>The plan when no slot is moved\<close>

lemma plan_raw:
  "0 < n \<Longrightarrow> 0 < h \<Longrightarrow>
   distribute_posts_intelligently rng now n h =
     sort (distribute_loop rng (min_interval n h) (max_interval n h) 0 (nat n) now)"
  by (simp add: distribute_posts_intelligently_def)

lemma interval_bounds:
  assumes "rng_ok rng"
  shows "min_interval n h \<le> draw_interval rng (min_interval n h) (max_interval n h) i"
    and "i = 0 \<Longrightarrow> draw_interval rng (min_interval n h) (max_interval n h) i \<le> 2 * min_interval n h"
    and "0 < i \<Longrightarrow> draw_interval rng (min_interval n h) (max_interval n h) i \<le> max_interval n h"
proof -
  have u: "0 \<le> uniform01 rng i" "uniform01 rng i \<le> 1"
    using assms by (simp_all add: rng_ok_def)
  have p: "0 \<le> min_interval n h"
    using min_interval_pos [of n h] by simp
  note b = draw_interval_bounds [OF u p min_le_max_interval]
  show "min_interval n h \<le> draw_interval rng (min_interval n h) (max_interval n h) i"
    by (rule b(1))
  show "draw_interval rng (min_interval n h) (max_interval n h) i \<le> 2 * min_interval n h" if "i = 0"
    using that by (rule b(2))
  show "draw_interval rng (min_interval n h) (max_interval n h) i \<le> max_interval n h" if "0 < i"
    using that by (rule b(3))
qed

lemma plan_no_clamp:
  assumes "0 < n" "0 < h" "rng_ok rng"
    and nc: "\<forall>j<nat n. hour (now + (\<Sum>l\<le>j. draw_interval rng (min_interval n h) (max_interval n h) l)) < 23"
  shows "distribute_posts_intelligently rng now n h =
     map (\<lambda>j. now + (\<Sum>l\<le>j. draw_interval rng (min_interval n h) (max_interval n h) l)) [0..<nat n]"
proof -
  let ?d = "draw_interval rng (min_interval n h) (max_interval n h)"
  let ?f = "\<lambda>j. now + sum ?d {..j}"
  have raw: "distribute_loop rng (min_interval n h) (max_interval n h) 0 (nat n) now = map ?f [0..<nat n]"
    using loop_no_clamp [of "nat n" now rng "min_interval n h" "max_interval n h" 0] nc
    by (simp add: atMost_atLeast0)
  have pos: "0 < ?d l" for l
    using interval_bounds(1) [OF assms(3), of n h l] min_interval_pos [of n h] by simp
  have "?f i \<le> ?f j" if "i \<le> j" for i j
  proof -
    have "sum ?d {..i} \<le> sum ?d {..j}"
      using that pos by (intro sum_mono2) (auto intro: less_imp_le)
    then show ?thesis by simp
  qed
  then have "sorted (map ?f [0..<nat n])"
    by (simp add: sorted_iff_nth_mono)
  then show ?thesis
    unfolding plan_raw [OF assms(1,2)] raw by (rule sorted_sort_id)
qed


lemma plan_nth_no_clamp:
  assumes "0 < n" "0 < h" "rng_ok rng"
    and nc: "\<forall>j<nat n. hour (now + (\<Sum>l\<le>j. draw_interval rng (min_interval n h) (max_interval n h) l)) < 23"
  shows "distribute_posts_intelligently rng now n h ! 0 =
           now + draw_interval rng (min_interval n h) (max_interval n h) 0"
    and "Suc i < nat n \<Longrightarrow>
         distribute_posts_intelligently rng now n h ! Suc i =
           distribute_posts_intelligently rng now n h ! i +
           draw_interval rng (min_interval n h) (max_interval n h) (Suc i)"
proof -
  note p = plan_no_clamp [OF assms]
  have "0 < nat n" using assms(1) by simp
  then show "distribute_posts_intelligently rng now n h ! 0 =
           now + draw_interval rng (min_interval n h) (max_interval n h) 0"
    unfolding p by simp
  show "distribute_posts_intelligently rng now n h ! Suc i =
           distribute_posts_intelligently rng now n h ! i +
           draw_interval rng (min_interval n h) (max_interval n h) (Suc i)" if "Suc i < nat n"
    unfolding p using that by simp
qed

subsection \<open>A plan worked out\<close>

text \<open>
  Three slots planned at 10:00 (minute 600) with five hours left, every \<^verbatim>\<open>random()\<close> being
  one half: the interval bounds are 75 and 100 minutes, and the slots are 11:52:30,
  13:20 and 14:47:30.
\<close>

lemma example_min_interval: "min_interval 3 5 = 75"
  by (simp add: min_interval_def MIN_INTERVAL_MINUTES_def)

lemma example_max_interval: "max_interval 3 5 = 100"
  by (simp add: max_interval_def min_interval_def MIN_INTERVAL_MINUTES_def
      MAX_INTERVAL_MINUTES_def)

lemma example_rng_ok: "rng_ok 
      \<lparr>uniform01 = (\<lambda>_. 1 / 2), randint59 = (\<lambda>k. if k = 0 then 10 else 15)\<rparr>"
  by (simp add: rng_ok_def)

lemma example_no_clamp:
  "\<forall>j<nat 3. hour (600 + (\<Sum>l\<le>j. draw_interval 
      \<lparr>uniform01 = (\<lambda>_. 1 / 2), randint59 = (\<lambda>k. if k = 0 then 10 else 15)\<rparr>
        (min_interval 3 5) (max_interval 3 5) l)) < 23"
  unfolding example_min_interval example_max_interval
  by (simp add: numeral_3_eq_3 less_Suc_eq draw_interval_def uniform_def hour_def)


subsection \<open>The claims about the planner\<close>

text \<open>
  Claim C10. For \<open>num_posts > 0\<close> and \<open>hours_remaining > 0\<close> the planner returns exactly
  \<open>num_posts\<close> timestamps: no iteration of the loop leaves a slot out. The returned
  list is the sorted list of the slots in the order of the loop; the slot of
  iteration \<open>i\<close> is the previous slot (for \<open>i = 0\<close>: \<open>now\<close>) plus the interval drawn, and
  when the clock hour of that time is 23 the slot is that time with its hour set to 22
  and its minute set to the value \<^verbatim>\<open>randint(0, 59)\<close> returned, on the same date. So
  every returned slot has a clock hour of at most 22. (That the minute is uniformly
  distributed is a statement about the random module and is not part of the model.)
\<close>

theorem plan_keeps_count:
  assumes "0 < num_posts" "0 < hours_remaining" "rng_ok rng"
  shows
    "(let lo = min_interval num_posts hours_remaining;
          hi = max_interval num_posts hours_remaining;
          post_times = distribute_loop rng lo hi 0 (nat num_posts) now;
          plan = distribute_posts_intelligently rng now num_posts hours_remaining
      in length plan = nat num_posts \<and>
         plan = sort post_times \<and>
         length post_times = nat num_posts \<and>
         (\<forall>i<nat num_posts.
            post_times ! i =
              (let current_time = (if i = 0 then now else post_times ! (i - 1));
                   post_time = current_time + draw_interval rng lo hi i
               in if 23 \<le> hour post_time
                  then replace_hour_minute post_time 22 (randint59 rng i)
                  else post_time)) \<and>
         (\<forall>t i. hour (replace_hour_minute t 22 (randint59 rng i)) = 22 \<and>
                minute (replace_hour_minute t 22 (randint59 rng i)) = randint59 rng i \<and>
                day_of (replace_hour_minute t 22 (randint59 rng i)) = day_of t) \<and>
         (\<forall>t\<in>set plan. hour t \<le> 22))"
proof -
  let ?lo = "min_interval num_posts hours_remaining"
  let ?hi = "max_interval num_posts hours_remaining"
  let ?raw = "distribute_loop rng ?lo ?hi 0 (nat num_posts) now"
  let ?plan = "distribute_posts_intelligently rng now num_posts hours_remaining"
  note raw = plan_raw [OF assms(1,2), of rng now]
  have m: "randint59 rng i \<le> 59" for i
    using assms(3) by (simp add: rng_ok_def)
  have 1: "length ?plan = nat num_posts"
    unfolding raw by (simp add: length_distribute_loop)
  have 2: "length ?raw = nat num_posts"
    by (rule length_distribute_loop)
  have 3: "\<forall>i<nat num_posts. ?raw ! i =
              (let current_time = (if i = 0 then now else ?raw ! (i - 1));
                   post_time = current_time + draw_interval rng ?lo ?hi i
               in if 23 \<le> hour post_time
                  then replace_hour_minute post_time 22 (randint59 rng i)
                  else post_time)"
  proof (intro allI impI)
    fix i assume "i < nat num_posts"
    from loop_nth [OF this, of rng ?lo ?hi 0 now]
    show "?raw ! i =
              (let current_time = (if i = 0 then now else ?raw ! (i - 1));
                   post_time = current_time + draw_interval rng ?lo ?hi i
               in if 23 \<le> hour post_time
                  then replace_hour_minute post_time 22 (randint59 rng i)
                  else post_time)"
      unfolding add_0 .
  qed
  have 4: "\<forall>t i. hour (replace_hour_minute t 22 (randint59 rng i)) = 22 \<and>
                minute (replace_hour_minute t 22 (randint59 rng i)) = randint59 rng i \<and>
                day_of (replace_hour_minute t 22 (randint59 rng i)) = day_of t"
    using hour_replace [OF _ m, of 22] minute_replace [OF m] day_of_replace [OF _ m, of 22]
    by simp
  have 5: "\<forall>t\<in>set ?plan. hour t \<le> 22"
    unfolding raw using loop_hours [OF assms(3)] by simp
  show ?thesis
    unfolding Let_def using 1 raw 2 3 [unfolded Let_def] 4 5 by (intro conjI)
qed

theorem plan_keeps_count_witness:
  "rng_ok \<lparr>uniform01 = (\<lambda>_. 1 / 2), randint59 = (\<lambda>k. if k = 0 then 10 else 15)\<rparr> \<and>
   distribute_posts_intelligently
     \<lparr>uniform01 = (\<lambda>_. 1 / 2), randint59 = (\<lambda>k. if k = 0 then 10 else 15)\<rparr> 1320 2 2 =
     [1330, 1335] \<and>
   length (distribute_posts_intelligently
     \<lparr>uniform01 = (\<lambda>_. 1 / 2), randint59 = (\<lambda>k. if k = 0 then 10 else 15)\<rparr> 1320 2 2) =
     nat 2 \<and>
   hour 1335 \<le> 22"
proof -
  let ?R = "\<lparr>uniform01 = (\<lambda>_. 1 / 2), randint59 = (\<lambda>k. if k = 0 then 10 else 15)\<rparr>"
  have ok: "rng_ok ?R"
    by (simp add: rng_ok_def)
  have pos: "0 < (2::int)" "0 < (2::real)"
    by simp_all
  note t = plan_keeps_count [OF pos ok, of 1320, unfolded Let_def]
  have e: "distribute_posts_intelligently ?R 1320 2 2 = [1330, 1335]"
    by code_simp
  have "1335 \<in> set (distribute_posts_intelligently ?R 1320 2 2)"
    unfolding e by simp
  from t [THEN conjunct2, THEN conjunct2, THEN conjunct2, THEN conjunct2, THEN conjunct2,
      THEN bspec, OF this]
  have "hour 1335 \<le> 22" .
  with ok e t [THEN conjunct1] show ?thesis by (intro conjI)
qed





text \<open>
  Claim C7, as amended. For \<open>count > 0\<close> and \<open>windowRemaining > 0\<close> the planner computes
  \<open>effective_min = max(30, windowRemaining / (count + 1))\<close> and
  \<open>effective_max = min(240, windowRemaining / count)\<close>, raised to \<open>effective_min\<close> when it
  is below it (\<open>windowRemaining\<close> in minutes). The interval of slot 0 is
  \<open>effective_min + effective_min * r\<close> and that of a later slot is
  \<open>effective_min + (effective_max - effective_min) * r\<close>, where \<open>r\<close> is what \<^verbatim>\<open>random()\<close>
  returned: a value between \<open>effective_min\<close> and \<open>2 * effective_min\<close>, respectively
  between \<open>effective_min\<close> and \<open>effective_max\<close>. When no time computed this way reaches
  clock hour 23, slot 0 is \<open>now\<close> plus its interval and every later slot is its
  predecessor plus its interval. The plan is a function of the inputs and of the values
  the random source returns, so a seeded source gives one plan. (That the values are
  uniformly distributed is not part of the model.)
\<close>

theorem plan_intervals:
  assumes "0 < num_posts" "0 < hours_remaining" "rng_ok rng"
  shows
    "(let lo = min_interval num_posts hours_remaining;
          hi = max_interval num_posts hours_remaining;
          d = draw_interval rng lo hi;
          plan = distribute_posts_intelligently rng now num_posts hours_remaining
      in lo = max 30 (hours_remaining * 60 / (of_int num_posts + 1)) \<and>
         hi = max (min 240 (hours_remaining * 60 / of_int num_posts)) lo \<and>
         lo \<le> hi \<and>
         (\<forall>i. d i = lo + ((if i = 0 then lo * 2 else hi) - lo) * uniform01 rng i \<and>
              lo \<le> d i \<and> d i \<le> (if i = 0 then lo * 2 else hi)) \<and>
         ((\<forall>j<nat num_posts. hour (now + (\<Sum>l\<le>j. d l)) < 23) \<longrightarrow>
            plan ! 0 = now + d 0 \<and>
            (\<forall>i. Suc i < nat num_posts \<longrightarrow> plan ! Suc i = plan ! i + d (Suc i))))"
proof -
  let ?lo = "min_interval num_posts hours_remaining"
  let ?hi = "max_interval num_posts hours_remaining"
  let ?d = "draw_interval rng ?lo ?hi"
  let ?plan = "distribute_posts_intelligently rng now num_posts hours_remaining"
  have 1: "?lo = max 30 (hours_remaining * 60 / (of_int num_posts + 1))"
    by (simp add: min_interval_def MIN_INTERVAL_MINUTES_def)
  have 2: "?hi = max (min 240 (hours_remaining * 60 / of_int num_posts)) ?lo"
    by (simp add: max_interval_def MAX_INTERVAL_MINUTES_def)
  have 3: "?lo \<le> ?hi"
    by (rule min_le_max_interval)
  have 4: "\<forall>i. ?d i = ?lo + ((if i = 0 then ?lo * 2 else ?hi) - ?lo) * uniform01 rng i \<and>
              ?lo \<le> ?d i \<and> ?d i \<le> (if i = 0 then ?lo * 2 else ?hi)"
  proof
    fix i
    have "?d i = ?lo + ((if i = 0 then ?lo * 2 else ?hi) - ?lo) * uniform01 rng i"
      by (simp add: draw_interval_def uniform_def)
    moreover have "?lo \<le> ?d i"
      by (rule interval_bounds(1) [OF assms(3)])
    moreover have "?d i \<le> (if i = 0 then ?lo * 2 else ?hi)"
      using interval_bounds(2,3) [OF assms(3), of i num_posts hours_remaining]
      by (cases "i = 0") simp_all
    ultimately show "?d i = ?lo + ((if i = 0 then ?lo * 2 else ?hi) - ?lo) * uniform01 rng i \<and>
              ?lo \<le> ?d i \<and> ?d i \<le> (if i = 0 then ?lo * 2 else ?hi)"
      by (intro conjI)
  qed
  have 5: "(\<forall>j<nat num_posts. hour (now + (\<Sum>l\<le>j. ?d l)) < 23) \<longrightarrow>
            ?plan ! 0 = now + ?d 0 \<and>
            (\<forall>i. Suc i < nat num_posts \<longrightarrow> ?plan ! Suc i = ?plan ! i + ?d (Suc i))"
  proof
    assume "\<forall>j<nat num_posts. hour (now + (\<Sum>l\<le>j. ?d l)) < 23"
    from plan_nth_no_clamp [OF assms this]
    show "?plan ! 0 = now + ?d 0 \<and>
            (\<forall>i. Suc i < nat num_posts \<longrightarrow> ?plan ! Suc i = ?plan ! i + ?d (Suc i))"
      by blast
  qed
  show ?thesis
    unfolding Let_def using 1 2 3 4 5 by (intro conjI)
qed

theorem plan_intervals_witness:
  "rng_ok 
      \<lparr>uniform01 = (\<lambda>_. 1 / 2), randint59 = (\<lambda>k. if k = 0 then 10 else 15)\<rparr> \<and>
   min_interval 3 5 = max 30 (5 * 60 / (of_int 3 + 1)) \<and>
   distribute_posts_intelligently 
      \<lparr>uniform01 = (\<lambda>_. 1 / 2), randint59 = (\<lambda>k. if k = 0 then 10 else 15)\<rparr> 600 3 5 ! 0 =
     600 + draw_interval 
      \<lparr>uniform01 = (\<lambda>_. 1 / 2), randint59 = (\<lambda>k. if k = 0 then 10 else 15)\<rparr> (min_interval 3 5) (max_interval 3 5) 0 \<and>
   draw_interval 
      \<lparr>uniform01 = (\<lambda>_. 1 / 2), randint59 = (\<lambda>k. if k = 0 then 10 else 15)\<rparr> (min_interval 3 5) (max_interval 3 5) 0 = 225 / 2"
proof -
  have pos: "0 < (3::int)" "0 < (5::real)"
    by simp_all
  note t = plan_intervals [OF pos example_rng_ok, of 600, unfolded Let_def]
  note c5 = t [THEN conjunct2, THEN conjunct2, THEN conjunct2, THEN conjunct2]
  have "draw_interval 
      \<lparr>uniform01 = (\<lambda>_. 1 / 2), randint59 = (\<lambda>k. if k = 0 then 10 else 15)\<rparr> (min_interval 3 5) (max_interval 3 5) 0 = 225 / 2"
    unfolding example_min_interval example_max_interval
    by (simp add: draw_interval_def uniform_def)
  with example_rng_ok t [THEN conjunct1] c5 [THEN mp, OF example_no_clamp, THEN conjunct1]
  show ?thesis by (intro conjI)
qed

text \<open>
  Claim C7 as stated fails when a slot is moved: at 22:00 (minute 1320) with one slot
  and two hours left, \<open>effective_min\<close> is 60 minutes, the interval drawn is 90 minutes,
  the time 23:30 has hour 23 and the slot becomes 22:10 (minute 1330): ten minutes
  after \<open>now\<close>, less than \<open>effective_min\<close>.
\<close>

theorem plan_first_slot_moved:
  "min_interval 1 2 = 60 \<and>
   distribute_posts_intelligently 
      \<lparr>uniform01 = (\<lambda>_. 1 / 2), randint59 = (\<lambda>k. if k = 0 then 10 else 15)\<rparr> 1320 1 2 = [1330] \<and>
   \<not> (min_interval 1 2 \<le> [1330] ! 0 - (1320::real))"
proof -
  have "distribute_posts_intelligently 
      \<lparr>uniform01 = (\<lambda>_. 1 / 2), randint59 = (\<lambda>k. if k = 0 then 10 else 15)\<rparr> 1320 1 2 = [1330]"
    by code_simp
  moreover have m: "min_interval 1 2 = 60"
    by (simp add: min_interval_def MIN_INTERVAL_MINUTES_def)
  moreover have "\<not> (min_interval 1 2 \<le> [1330] ! 0 - (1320::real))"
    unfolding m by simp
  ultimately show ?thesis by (intro conjI)
qed




text \<open>
  Claim C9. With \<open>count = 0\<close> the planner returns the empty sequence, and with
  \<open>windowRemaining \<le> 0\<close> it returns the empty sequence. Neither case is an error: the
  function is total and its value there is the empty list (the source returns \<^verbatim>\<open>[]\<close> at
  line 46, before anything that could raise). The source's guard is \<open>num_posts \<le> 0\<close>, so
  a negative count gives the empty sequence as well.
\<close>

theorem plan_empty:
  "num_posts \<le> 0 \<or> hours_remaining \<le> 0 \<Longrightarrow>
     distribute_posts_intelligently rng now num_posts hours_remaining = []"
  by (simp add: distribute_posts_intelligently_def)

theorem plan_empty_witness:
  "distribute_posts_intelligently
       \<lparr>uniform01 = (\<lambda>_. 1 / 2), randint59 = (\<lambda>_. 10)\<rparr> 600 0 5 = [] \<and>
   distribute_posts_intelligently
       \<lparr>uniform01 = (\<lambda>_. 1 / 2), randint59 = (\<lambda>_. 10)\<rparr> 600 3 0 = [] \<and>
   distribute_posts_intelligently
       \<lparr>uniform01 = (\<lambda>_. 1 / 2), randint59 = (\<lambda>_. 10)\<rparr> 600 3 (- 1) = []"
  using plan_empty [of 0 5 "\<lparr>uniform01 = (\<lambda>_. 1 / 2), randint59 = (\<lambda>_. 10)\<rparr>" 600]
    plan_empty [of 3 0 "\<lparr>uniform01 = (\<lambda>_. 1 / 2), randint59 = (\<lambda>_. 10)\<rparr>" 600]
    plan_empty [of 3 "- 1" "\<lparr>uniform01 = (\<lambda>_. 1 / 2), randint59 = (\<lambda>_. 10)\<rparr>" 600]
  by simp

section \<open>Properties of the job table\<close>

subsection \<open>Installing a plan\<close>

lemma install_posts_append:
  "install_posts now i ts jobs =
     jobs @ concat (map (\<lambda>(k, t).
        [new_job now (clock t) (PostCallback ''RANDOM'') (''random_post_'' @ str k),
         new_job now (clock (t - 60))
           (SendNotification ''Upcoming Post'' (''A RANDOM post is scheduled at '' @ strftime_HM t))
           (''notify_random_post_'' @ str k)]) (zip [i..<i + length ts] ts))"
proof (induction ts arbitrary: i jobs)
  case Nil
  then show ?case by simp
next
  case (Cons t ts)
  have "i < i + length (t # ts)" by simp
  from upt_conv_Cons [OF this]
  have "[i..<i + length (t # ts)] = i # [Suc i..<Suc i + length ts]"
    by simp
  then show ?case
    by (simp add: Cons.IH every_day_at_do_def Let_def)
qed

lemma install_posts_length:
  "length (install_posts now i ts jobs) = length jobs + 2 * length ts"
  by (induction ts arbitrary: i jobs) (simp_all add: every_day_at_do_def Let_def)

lemma install_posts_nth_old:
  "n < length jobs \<Longrightarrow> install_posts now i ts jobs ! n = jobs ! n"
  by (simp add: install_posts_append nth_append)

lemma install_posts_nth_new:
  "n < length ts \<Longrightarrow>
   install_posts now i ts jobs ! (length jobs + 2 * n) =
     new_job now (clock (ts ! n)) (PostCallback ''RANDOM'') (''random_post_'' @ str (i + n)) \<and>
   install_posts now i ts jobs ! (length jobs + 2 * n + 1) =
     new_job now (clock (ts ! n - 60))
       (SendNotification ''Upcoming Post''
          (''A RANDOM post is scheduled at '' @ strftime_HM (ts ! n)))
       (''notify_random_post_'' @ str (i + n))"
proof (induction ts arbitrary: i jobs n)
  case Nil
  then show ?case by simp
next
  case (Cons t ts)
  let ?jobs = "every_day_at_do now (clock (t - 60))
       (SendNotification ''Upcoming Post'' (''A RANDOM post is scheduled at '' @ strftime_HM t))
       (''notify_random_post_'' @ str i)
       (every_day_at_do now (clock t) (PostCallback ''RANDOM'') (''random_post_'' @ str i) jobs)"
  have e: "install_posts now i (t # ts) jobs = install_posts now (Suc i) ts ?jobs"
    by (simp add: Let_def)
  have l: "length ?jobs = length jobs + 2"
    by (simp add: every_day_at_do_def)
  show ?case
  proof (cases n)
    case 0
    have "install_posts now i (t # ts) jobs ! length jobs = ?jobs ! length jobs"
      "install_posts now i (t # ts) jobs ! (length jobs + 1) = ?jobs ! (length jobs + 1)"
      unfolding e using l by (simp_all add: install_posts_nth_old)
    then show ?thesis
      using 0 by (simp add: every_day_at_do_def nth_append)
  next
    case (Suc m)
    then have "m < length ts" using Cons.prems by simp
    from Cons.IH [OF this, of "Suc i" ?jobs] show ?thesis
      unfolding e l Suc by (simp add: add.commute add.left_commute)
  qed
qed

lemma schedule_remaining_posts_install:
  "schedule_remaining_posts rng db now jobs =
     install_posts now 0
       (distribute_posts_intelligently rng now (calculate_remaining_posts db now)
          (calculate_time_remaining_today now)) jobs"
  by (simp add: schedule_remaining_posts_def Let_def distribute_posts_intelligently_def)

lemma mod24_pred: "((x::int) - 1) mod 24 = (x mod 24 + 23) mod 24"
proof -
  have "(x - 1 + 24) mod 24 = (x - 1) mod 24"
    by (rule mod_add_self2)
  moreover have "x - 1 + 24 = x + 23" by simp
  ultimately have "(x - 1) mod 24 = (x + 23) mod 24" by simp
  then show ?thesis by (simp add: mod_add_left_eq)
qed

lemma div60_pred: "((t::int) - 60) div 60 = t div 60 - 1"
proof -
  have "(t - 60 + 60) div 60 = (t - 60) div 60 + 1"
    by (rule div_add_self2) simp
  then show ?thesis by simp
qed

lemma floor_minus_60: "\<lfloor>(t::real) - 60\<rfloor> = \<lfloor>t\<rfloor> - 60"
  using floor_diff_of_int [of t 60] by simp

lemma hour_minus_60: "hour (t - 60) = (hour t + 23) mod 24"
proof -
  have "hour (t - 60) = nat ((\<lfloor>t\<rfloor> div 60 mod 24 + 23) mod 24)"
    unfolding hour_def floor_div60 floor_minus_60 div60_pred mod24_pred ..
  also have "\<dots> = (nat (\<lfloor>t\<rfloor> div 60 mod 24) + 23) mod 24"
    by (simp add: nat_mod_distrib nat_add_distrib)
  finally show ?thesis
    unfolding hour_def floor_div60 .
qed

lemma minute_minus_60: "minute (t - 60) = minute t"
proof -
  have "(\<lfloor>t\<rfloor> - 60) mod 60 = \<lfloor>t\<rfloor> mod 60"
    by (rule minus_mod_self2)
  then show ?thesis
    unfolding minute_def floor_minus_60 by simp
qed

lemma hour_lt_24: "hour t < 24"
  unfolding hour_def by simp

lemma minute_lt_60: "minute t < 60"
  unfolding minute_def by simp

lemma day_bounds: "of_int (day_of t) * 1440 \<le> t" "t < of_int (day_of t) * 1440 + 1440"
proof -
  have "of_int (day_of t) \<le> t / 1440" "t / 1440 < of_int (day_of t) + 1"
    unfolding day_of_def by linarith+
  then show "of_int (day_of t) * 1440 \<le> t" "t < of_int (day_of t) * 1440 + 1440"
    by (simp_all add: field_simps)
qed

lemma first_run_after:
  assumes "fst hm \<le> 23" "snd hm \<le> 59"
  shows "now < first_run now hm" and "first_run now hm \<le> now + 1440"
proof -
  let ?today = "real_of_int (day_of now) * 1440 + real (fst hm) * 60 + real (snd hm)"
  have a: "0 \<le> real (fst hm) * 60 + real (snd hm)" by simp
  have "real (fst hm) \<le> 23" "real (snd hm) \<le> 59"
    using assms by simp_all
  then have b: "real (fst hm) * 60 + real (snd hm) < 1440" by simp
  show "now < first_run now hm"
    using day_bounds(2) [of now] a by (simp add: first_run_def Let_def)
  show "first_run now hm \<le> now + 1440"
    using day_bounds(1) [of now] b by (simp add: first_run_def Let_def)
qed

lemma clock_today:
  assumes "h \<le> 23" "m \<le> 59"
  shows "clock (of_int d * 1440 + real h * 60 + real m) = (h, m)"
proof -
  have e: "of_int d * 1440 + real h * 60 + real m = replace_hour_minute (of_int d * 1440) h m"
    by (simp add: replace_hour_minute_def day_of_def)
  show ?thesis
    unfolding e clock_def using hour_replace [OF assms] minute_replace [OF assms(2)] by simp
qed

lemma clock_first_run:
  assumes "fst hm \<le> 23" "snd hm \<le> 59"
  shows "clock (first_run now hm) = hm"
proof -
  let ?today = "real_of_int (day_of now) * 1440 + real (fst hm) * 60 + real (snd hm)"
  have e: "?today + 1440 = of_int (day_of now + 1) * 1440 + real (fst hm) * 60 + real (snd hm)"
    by simp
  have 1: "clock ?today = hm"
    using clock_today [OF assms, of "day_of now"] by simp
  have 2: "clock (?today + 1440) = hm"
    unfolding e using clock_today [OF assms, of "day_of now + 1"] by simp
  show ?thesis
    unfolding first_run_def Let_def using 1 2 by (cases "now < ?today") simp_all
qed

lemma clock_valid: "fst (clock t) \<le> 23" "snd (clock t) \<le> 59"
  using hour_lt_24 [of t] minute_lt_60 [of t] by (simp_all add: clock_def)

lemma plan_length:
  "0 < n \<Longrightarrow> 0 < h \<Longrightarrow> length (distribute_posts_intelligently rng now n h) = nat n"
  by (simp add: plan_raw length_distribute_loop)

lemma install_posts_random_count:
  "length (filter (\<lambda>j. job_func j = PostCallback ''RANDOM'') (install_posts now i ts jobs)) =
   length (filter (\<lambda>j. job_func j = PostCallback ''RANDOM'') jobs) + length ts"
  by (induction ts arbitrary: i jobs) (simp_all add: every_day_at_do_def new_job_def Let_def)

lemma install_posts_take:
  "take (length jobs) (install_posts now i ts jobs) = jobs"
  by (simp add: install_posts_append)

lemma clear_append: "clear t (xs @ ys) = clear t xs @ clear t ys"
  by (cases t) (simp_all add: clear_def)

lemma clear_random_posts_install:
  "clear_random_posts (install_posts now i ts jobs) =
     install_posts now i ts (clear_random_posts jobs)"
  by (induction ts arbitrary: i jobs)
     (simp_all add: clear_random_posts_def clear_def every_day_at_do_def new_job_def Let_def)

lemma clear_random_posts_daily:
  "clear_random_posts (schedule_daily_post now jobs) =
     schedule_daily_post now (clear_random_posts jobs)"
  by (simp add: clear_random_posts_def clear_def schedule_daily_post_def every_day_at_do_def
      new_job_def Let_def)

lemma schedule_daily_post_append:
  "schedule_daily_post now jobs =
     jobs @ [new_job now (12, 0) (PostCallback ''SCHEDULED'') ''daily_post'',
             new_job now (11, 0)
               (SendNotification ''Upcoming Post'' ''A SCHEDULED post is at 12:00'')
               ''notify_daily_post'']"
proof -
  have "clock (strptime_HM SCHEDULED_POST_TIME - 60) = (11, 0)"
    by (simp add: clock_def strptime_HM_def SCHEDULED_POST_TIME_def hour_def minute_def)
  then show ?thesis
    by (simp add: schedule_daily_post_def every_day_at_do_def SCHEDULED_POST_TIME_def Let_def)
qed

lemma remaining_unreachable:
  "\<not> reachable db \<Longrightarrow> calculate_remaining_posts db now = 5"
  by (simp add: calculate_remaining_posts_def get_today_posts_count_def
      RANDOM_POSTS_PER_DAY_def)

lemma post_callback_no_replan:
  "res \<noteq> Published \<or> post_type \<noteq> ''RANDOM'' \<or> \<not> notified \<Longrightarrow>
   schedule_jobs (fst (post_callback rng res notified now post_type st)) = schedule_jobs st"
  by (cases res) (auto simp add: post_callback_def make_post_def Let_def)

lemma post_callback_replan:
  "post_callback rng Published True now ''RANDOM'' st =
     (st\<lparr>database_manager := log_post (database_manager st) now ''RANDOM'' SUCCESS,
         schedule_jobs :=
           schedule_remaining_posts rng
             (log_post (database_manager st) now ''RANDOM'' SUCCESS) now (schedule_jobs st)\<rparr>,
      True)"
  by (simp add: post_callback_def make_post_def)

subsection \<open>An evening worked out\<close>

text \<open>
  At 22:00 (minute 1320), with no post logged today, five slots are planned over the
  two hours left (less a microsecond): both interval bounds are 30 minutes. With every
  \<^verbatim>\<open>random()\<close> one quarter and every \<^verbatim>\<open>randint(0, 59)\<close> ten, the loop yields 22:37:30,
  then 23:07:30 moved to 22:10:30, then 22:40:30, then 23:10:30 moved to 22:10:30, then
  22:40:30. The first slot of the sorted plan is 22:10:30; its notice is due at 21:10.
\<close>

lemma example_evening_hours: "calculate_time_remaining_today 1320 = 7199999999 / 3600000000"
  by (simp add: calculate_time_remaining_today_def end_of_day_def day_of_def)

lemma example_evening_min: "min_interval 5 (7199999999 / 3600000000) = 30"
  by (simp add: min_interval_def MIN_INTERVAL_MINUTES_def)

lemma example_evening_max: "max_interval 5 (7199999999 / 3600000000) = 30"
  by (simp add: max_interval_def example_evening_min MAX_INTERVAL_MINUTES_def)

lemma example_evening_loop:
  "distribute_loop \<lparr>uniform01 = (\<lambda>_. 1 / 4), randint59 = (\<lambda>_. 10)\<rparr> 30 30 0 (nat 5) 1320 =
     [2715 / 2, 2661 / 2, 2721 / 2, 2661 / 2, 2721 / 2]"
  by code_simp

lemma example_evening_plan:
  "distribute_posts_intelligently \<lparr>uniform01 = (\<lambda>_. 1 / 4), randint59 = (\<lambda>_. 10)\<rparr>
     1320 5 (calculate_time_remaining_today 1320) =
     [2661 / 2, 2661 / 2, 2715 / 2, 2721 / 2, 2721 / 2]"
  unfolding example_evening_hours distribute_posts_intelligently_def
    example_evening_min example_evening_max example_evening_loop
  by simp

lemma example_evening_remaining:
  "calculate_remaining_posts \<lparr>reachable = True, posts = []\<rparr> 1320 = 5"
  by (simp add: calculate_remaining_posts_def get_today_posts_count_def
      RANDOM_POSTS_PER_DAY_def)

lemma example_evening_table:
  "schedule_remaining_posts \<lparr>uniform01 = (\<lambda>_. 1 / 4), randint59 = (\<lambda>_. 10)\<rparr>
     \<lparr>reachable = True, posts = []\<rparr> 1320 [] =
   install_posts 1320 0 [2661 / 2, 2661 / 2, 2715 / 2, 2721 / 2, 2721 / 2] []"
  unfolding schedule_remaining_posts_install example_evening_remaining example_evening_plan ..

lemma example_evening_clock: "clock (2661 / 2 - 60) = (21, 10)" "clock (2661 / 2) = (22, 10)"
  by (simp_all add: clock_def hour_def minute_def)

lemma example_evening_strings:
  "str 0 = ''0''" "strftime_HM (2661 / 2) = ''22:10''"
  by (simp_all add: str.simps strftime_HM_def digit_def hour_def minute_def)

lemma example_evening_first_run: "first_run 1320 (21, 10) = 2710" "first_run 1320 (22, 10) = 1330"
  by (simp_all add: first_run_def day_of_def)

lemma example_evening_post_job:
  "new_job 1320 (clock (2661 / 2)) (PostCallback ''RANDOM'') (''random_post_'' @ str 0) =
     \<lparr>at_time = (22, 10), next_run = 1330, job_func = PostCallback ''RANDOM'',
      tags = {''random_post_0''}\<rparr>"
  by (simp add: new_job_def first_run_def day_of_def clock_def hour_def minute_def str.simps
      digit_def)

lemma example_evening_notice_job:
  "new_job 1320 (clock (2661 / 2 - 60))
     (SendNotification ''Upcoming Post''
        (''A RANDOM post is scheduled at '' @ strftime_HM (2661 / 2)))
     (''notify_random_post_'' @ str 0) =
     \<lparr>at_time = (21, 10), next_run = 2710,
      job_func = SendNotification ''Upcoming Post'' ''A RANDOM post is scheduled at 22:10'',
      tags = {''notify_random_post_0''}\<rparr>"
  by (simp add: new_job_def first_run_def day_of_def clock_def hour_def minute_def str.simps
      digit_def strftime_HM_def)

lemma example_evening_indices:
  "length ([] :: job list) + 2 * 0 = 0" "length ([] :: job list) + 2 * 0 + 1 = 1"
  "[2661 / 2, 2661 / 2, 2715 / 2, 2721 / 2, 2721 / 2 :: real] ! 0 = 2661 / 2"
  "0 < length [2661 / 2, 2661 / 2, 2715 / 2, 2721 / 2, 2721 / 2 :: real]"
  "length ([] :: job list) + 2 * length [2661 / 2, 2661 / 2, 2715 / 2, 2721 / 2, 2721 / 2 :: real] = 10"
  by simp_all


lemma initialize_install:
  "initialize_daily_schedule rng db now jobs =
     install_posts now 0
       (distribute_posts_intelligently rng now (calculate_remaining_posts db now)
          (calculate_time_remaining_today now))
       (schedule_daily_post now [])"
  by (simp add: initialize_daily_schedule_def clear_all_schedules_def clear_def
      schedule_remaining_posts_install)

lemma first_run_noon:
  "first_run now (12, 0) =
     (if now < of_int (day_of now) * 1440 + 720 then of_int (day_of now) * 1440 + 720
      else of_int (day_of now) * 1440 + 2160)"
  by (simp add: first_run_def Let_def)

lemma count_unreachable: "\<not> reachable db \<Longrightarrow> get_today_posts_count db now post_type = 0"
  by (simp add: get_today_posts_count_def)

lemma example_afternoon_hours: "0 < calculate_time_remaining_today 780"
  by (simp add: calculate_time_remaining_today_def end_of_day_def day_of_def)

lemma clear_random_posts_initialize:
  "clear_random_posts (initialize_daily_schedule rng db now jobs) =
     initialize_daily_schedule rng db now jobs"
proof -
  have "clear_random_posts [] = []"
    by (simp add: clear_random_posts_def clear_def)
  then show ?thesis
    unfolding initialize_install clear_random_posts_install clear_random_posts_daily by simp
qed

lemma post_callback_appends:
  "schedule_jobs (fst (post_callback rng Published True now ''RANDOM'' st)) =
     install_posts now 0
       (distribute_posts_intelligently rng now
          (calculate_remaining_posts (log_post (database_manager st) now ''RANDOM'' SUCCESS) now)
          (calculate_time_remaining_today now))
       (schedule_jobs st)"
  by (simp add: post_callback_replan schedule_remaining_posts_install)

lemma post_callback_database:
  "database_manager (fst (post_callback rng res notified now post_type st)) =
     log_post (database_manager st) now post_type
       (if res = Published then SUCCESS else FAILURE)"
  by (cases res) (simp_all add: post_callback_def make_post_def)

lemma example_evening_count:
  "length (filter (\<lambda>j. job_func j = PostCallback ''RANDOM'')
     (initialize_daily_schedule \<lparr>uniform01 = (\<lambda>_. 1 / 4), randint59 = (\<lambda>_. 10)\<rparr>
        \<lparr>reachable = True, posts = []\<rparr> 1320 [])) = 5"
  unfolding initialize_install install_posts_random_count example_evening_remaining
    example_evening_plan
  by (simp add: schedule_daily_post_append new_job_def)

lemma example_evening_logged:
  "log_post \<lparr>reachable = True, posts = []\<rparr> 1330 ''RANDOM'' SUCCESS =
     \<lparr>reachable = True,
      posts = [\<lparr>row_post_type = ''RANDOM'', row_timestamp = 1330, row_status = SUCCESS\<rparr>]\<rparr>"
  by (simp add: log_post_def)

lemma example_evening_remaining_after:
  "calculate_remaining_posts
     \<lparr>reachable = True,
      posts = [\<lparr>row_post_type = ''RANDOM'', row_timestamp = 1330, row_status = SUCCESS\<rparr>]\<rparr>
     1330 = 4"
  by (simp add: calculate_remaining_posts_def get_today_posts_count_def
      RANDOM_POSTS_PER_DAY_def)

lemma example_evening_hours_after: "0 < calculate_time_remaining_today 1330"
  by (simp add: calculate_time_remaining_today_def end_of_day_def day_of_def)

subsection \<open>Dispatch\<close>

text \<open>
  The callbacks only append to the table, so an index names the same job before and
  after a job has run. A job that has run and returned is in the table with a new
  \<^verbatim>\<open>next_run\<close>; nothing else about it changes, and no other job of the table changes.
\<close>

lemma schedule_remaining_posts_extends:
  "\<exists>more. schedule_remaining_posts rng db now jobs = jobs @ more"
  unfolding schedule_remaining_posts_install install_posts_append by blast

lemma post_callback_extends:
  "\<exists>more. schedule_jobs (fst (post_callback rng res notified now post_type st)) =
           schedule_jobs st @ more"
proof (cases "res = Published \<and> post_type = ''RANDOM'' \<and> notified")
  case True
  then show ?thesis
    using schedule_remaining_posts_extends
    by (simp add: post_callback_replan)
next
  case False
  then have "schedule_jobs (fst (post_callback rng res notified now post_type st)) =
             schedule_jobs st"
    by (intro post_callback_no_replan) auto
  then show ?thesis by simp
qed

lemma run_job_table:
  assumes "k < length (schedule_jobs st)"
  shows "\<exists>more. schedule_jobs (fst (run_job env now k st)) =
           (if snd (run_job env now k st)
            then (schedule_jobs st)
                   [k := (schedule_jobs st ! k)
                           \<lparr>next_run := first_run now (at_time (schedule_jobs st ! k))\<rparr>]
            else schedule_jobs st) @ more"
proof (cases "job_func (schedule_jobs st ! k)")
  case (PostCallback post_type)
  let ?r = "post_callback (randoms env k) (publish env k) (notifier_ok env k) now post_type st"
  obtain more where m: "schedule_jobs (fst ?r) = schedule_jobs st @ more"
    using post_callback_extends by blast
  show ?thesis
    using assms m PostCallback
    by (cases ?r) (auto simp add: run_job_def Let_def list_update_append1)
next
  case (SendNotification title message)
  then show ?thesis
    by (simp add: run_job_def Let_def)
qed

lemma run_job_length:
  "k < length (schedule_jobs st) \<Longrightarrow>
   length (schedule_jobs st) \<le> length (schedule_jobs (fst (run_job env now k st)))"
  using run_job_table [of k st env now] by (auto split: if_splits)

lemma run_job_nth:
  assumes "k < length (schedule_jobs st)" "i < length (schedule_jobs st)"
  shows "schedule_jobs (fst (run_job env now k st)) ! i =
           (if i = k \<and> snd (run_job env now k st)
            then (schedule_jobs st ! k)
                   \<lparr>next_run := first_run now (at_time (schedule_jobs st ! k))\<rparr>
            else schedule_jobs st ! i)"
proof -
  obtain more where "schedule_jobs (fst (run_job env now k st)) =
           (if snd (run_job env now k st)
            then (schedule_jobs st)
                   [k := (schedule_jobs st ! k)
                           \<lparr>next_run := first_run now (at_time (schedule_jobs st ! k))\<rparr>]
            else schedule_jobs st) @ more"
    using run_job_table [OF assms(1)] by blast
  then show ?thesis
    using assms by (simp add: nth_append nth_list_update)
qed

lemma run_jobs_length:
  "\<forall>k\<in>set ks. k < length (schedule_jobs st) \<Longrightarrow>
   length (schedule_jobs st) \<le> length (schedule_jobs (fst (run_jobs env now ks st)))"
proof (induction ks arbitrary: st)
  case Nil
  then show ?case by simp
next
  case (Cons k ks)
  obtain st1 r where e: "run_job env now k st = (st1, r)"
    by (cases "run_job env now k st")
  have l: "length (schedule_jobs st) \<le> length (schedule_jobs st1)"
    using run_job_length [of k st env now] Cons.prems e by simp
  show ?case
  proof (cases r)
    case True
    have "\<forall>k\<in>set ks. k < length (schedule_jobs st1)"
      using Cons.prems l by auto
    from Cons.IH [OF this] show ?thesis
      using e True l by simp
  next
    case False
    then show ?thesis using e l by simp
  qed
qed

lemma run_jobs_nth_other:
  "\<forall>k\<in>set ks. k < length (schedule_jobs st) \<Longrightarrow> i < length (schedule_jobs st) \<Longrightarrow>
   i \<notin> set ks \<Longrightarrow>
   schedule_jobs (fst (run_jobs env now ks st)) ! i = schedule_jobs st ! i"
proof (induction ks arbitrary: st)
  case Nil
  then show ?case by simp
next
  case (Cons k ks)
  obtain st1 r where e: "run_job env now k st = (st1, r)"
    by (cases "run_job env now k st")
  have l: "length (schedule_jobs st) \<le> length (schedule_jobs st1)"
    using run_job_length [of k st env now] Cons.prems e by simp
  have n: "schedule_jobs st1 ! i = schedule_jobs st ! i"
    using run_job_nth [of k st i env now] Cons.prems e by simp
  show ?case
  proof (cases r)
    case True
    have "\<forall>k\<in>set ks. k < length (schedule_jobs st1)" "i < length (schedule_jobs st1)"
      "i \<notin> set ks"
      using Cons.prems l by auto
    from Cons.IH [OF this] show ?thesis
      using e True n by simp
  next
    case False
    then show ?thesis using e n by simp
  qed
qed

lemma run_jobs_core:
  "\<forall>k\<in>set ks. k < length (schedule_jobs st) \<Longrightarrow> i < length (schedule_jobs st) \<Longrightarrow>
   at_time (schedule_jobs (fst (run_jobs env now ks st)) ! i) = at_time (schedule_jobs st ! i) \<and>
   job_func (schedule_jobs (fst (run_jobs env now ks st)) ! i) = job_func (schedule_jobs st ! i) \<and>
   tags (schedule_jobs (fst (run_jobs env now ks st)) ! i) = tags (schedule_jobs st ! i)"
proof (induction ks arbitrary: st)
  case Nil
  then show ?case by simp
next
  case (Cons k ks)
  obtain st1 r where e: "run_job env now k st = (st1, r)"
    by (cases "run_job env now k st")
  have l: "length (schedule_jobs st) \<le> length (schedule_jobs st1)"
    using run_job_length [of k st env now] Cons.prems e by simp
  have n: "at_time (schedule_jobs st1 ! i) = at_time (schedule_jobs st ! i) \<and>
           job_func (schedule_jobs st1 ! i) = job_func (schedule_jobs st ! i) \<and>
           tags (schedule_jobs st1 ! i) = tags (schedule_jobs st ! i)"
    using run_job_nth [of k st i env now] Cons.prems e by simp
  show ?case
  proof (cases r)
    case True
    have "\<forall>k\<in>set ks. k < length (schedule_jobs st1)" "i < length (schedule_jobs st1)"
      using Cons.prems l by auto
    from Cons.IH [OF this] show ?thesis
      using e True n by simp
  next
    case False
    then show ?thesis using e n by simp
  qed
qed

lemma run_jobs_rearmed:
  "\<forall>k\<in>set ks. k < length (schedule_jobs st) \<Longrightarrow> distinct ks \<Longrightarrow> i \<in> set ks \<Longrightarrow>
   snd (run_jobs env now ks st) \<Longrightarrow>
   next_run (schedule_jobs (fst (run_jobs env now ks st)) ! i) =
     first_run now (at_time (schedule_jobs st ! i))"
proof (induction ks arbitrary: st)
  case Nil
  then show ?case by simp
next
  case (Cons k ks)
  obtain st1 r where e: "run_job env now k st = (st1, r)"
    by (cases "run_job env now k st")
  have r: r
    using Cons.prems(4) e by (cases r) simp_all
  have l: "length (schedule_jobs st) \<le> length (schedule_jobs st1)"
    using run_job_length [of k st env now] Cons.prems e by simp
  have ks: "\<forall>k\<in>set ks. k < length (schedule_jobs st1)"
    using Cons.prems l by auto
  have i: "i < length (schedule_jobs st)"
    using Cons.prems by auto
  have f: "fst (run_jobs env now (k # ks) st) = fst (run_jobs env now ks st1)"
    "snd (run_jobs env now ks st1)"
    using e r Cons.prems(4) by simp_all
  show ?case
  proof (cases "i = k")
    case True
    then have "i \<notin> set ks" using Cons.prems(2) by simp
    from run_jobs_nth_other [OF ks _ this, of env now]
    have "schedule_jobs (fst (run_jobs env now ks st1)) ! i = schedule_jobs st1 ! i"
      using i l by simp
    then show ?thesis
      unfolding f using run_job_nth [of k st i env now] True i e r by simp
  next
    case False
    then have "i \<in> set ks" using Cons.prems(3) by simp
    from Cons.IH [OF ks _ this f(2)]
    have "next_run (schedule_jobs (fst (run_jobs env now ks st1)) ! i) =
            first_run now (at_time (schedule_jobs st1 ! i))"
      using Cons.prems(2) by simp
    then show ?thesis
      unfolding f using run_job_nth [of k st i env now] False i e Cons.prems(1) by simp
  qed
qed

lemma run_pending_jobs:
  "set (sort_key (\<lambda>k. next_run (schedule_jobs st ! k))
          (filter (\<lambda>k. should_run now (schedule_jobs st ! k)) [0..<length (schedule_jobs st)])) =
     {k. k < length (schedule_jobs st) \<and> should_run now (schedule_jobs st ! k)}"
  "distinct (sort_key (\<lambda>k. next_run (schedule_jobs st ! k))
          (filter (\<lambda>k. should_run now (schedule_jobs st ! k)) [0..<length (schedule_jobs st)]))"
  by auto

lemma run_pending_keeps:
  assumes "i < length (schedule_jobs st)"
  shows "length (schedule_jobs st) \<le> length (schedule_jobs (fst (run_pending env now st)))"
    and "at_time (schedule_jobs (fst (run_pending env now st)) ! i) = at_time (schedule_jobs st ! i)"
    and "job_func (schedule_jobs (fst (run_pending env now st)) ! i) = job_func (schedule_jobs st ! i)"
    and "tags (schedule_jobs (fst (run_pending env now st)) ! i) = tags (schedule_jobs st ! i)"
    and "\<not> should_run now (schedule_jobs st ! i) \<Longrightarrow>
         schedule_jobs (fst (run_pending env now st)) ! i = schedule_jobs st ! i"
    and "should_run now (schedule_jobs st ! i) \<Longrightarrow> snd (run_pending env now st) \<Longrightarrow>
         next_run (schedule_jobs (fst (run_pending env now st)) ! i) =
           first_run now (at_time (schedule_jobs st ! i))"
proof -
  let ?ks = "sort_key (\<lambda>k. next_run (schedule_jobs st ! k))
          (filter (\<lambda>k. should_run now (schedule_jobs st ! k)) [0..<length (schedule_jobs st)])"
  have p: "run_pending env now st = run_jobs env now ?ks st"
    by (simp add: run_pending_def)
  have b: "\<forall>k\<in>set ?ks. k < length (schedule_jobs st)"
    unfolding run_pending_jobs by simp
  note c = run_jobs_core [OF b assms, of env now]
  show "length (schedule_jobs st) \<le> length (schedule_jobs (fst (run_pending env now st)))"
    unfolding p using b by (rule run_jobs_length)
  show "at_time (schedule_jobs (fst (run_pending env now st)) ! i) = at_time (schedule_jobs st ! i)"
    unfolding p using c by simp
  show "job_func (schedule_jobs (fst (run_pending env now st)) ! i) = job_func (schedule_jobs st ! i)"
    unfolding p using c by simp
  show "tags (schedule_jobs (fst (run_pending env now st)) ! i) = tags (schedule_jobs st ! i)"
    unfolding p using c by simp
  show "schedule_jobs (fst (run_pending env now st)) ! i = schedule_jobs st ! i"
    if "\<not> should_run now (schedule_jobs st ! i)"
  proof -
    have "i \<notin> set ?ks"
      unfolding run_pending_jobs using that by simp
    from run_jobs_nth_other [OF b assms this] show ?thesis
      unfolding p .
  qed
  show "next_run (schedule_jobs (fst (run_pending env now st)) ! i) =
           first_run now (at_time (schedule_jobs st ! i))"
    if "should_run now (schedule_jobs st ! i)" "snd (run_pending env now st)"
  proof -
    have "i \<in> set ?ks"
      unfolding run_pending_jobs using that(1) assms by simp
    from run_jobs_rearmed [OF b run_pending_jobs(2) this] that(2) show ?thesis
      unfolding p by simp
  qed
qed

text \<open>
  The pass of 12:00 over the table that \<^verbatim>\<open>schedule_daily_post\<close> installed at 10:00: the
  notice of 11:00 and the post of 12:00 are both due, the post is published and logged,
  and both jobs are in the table afterwards, due on the following day.
\<close>

lemma example_noon_pass:
  "run_pending
     \<lparr>publish = (\<lambda>_. Published), notifier_ok = (\<lambda>_. True),
      randoms = (\<lambda>_. \<lparr>uniform01 = (\<lambda>_. 1 / 4), randint59 = (\<lambda>_. 10)\<rparr>)\<rparr> 720
     \<lparr>database_manager = \<lparr>reachable = True, posts = []\<rparr>,
      schedule_jobs = schedule_daily_post 600 []\<rparr> =
   (\<lparr>database_manager =
       \<lparr>reachable = True,
        posts = [\<lparr>row_post_type = ''SCHEDULED'', row_timestamp = 720, row_status = SUCCESS\<rparr>]\<rparr>,
     schedule_jobs =
       [\<lparr>at_time = (12, 0), next_run = 2160, job_func = PostCallback ''SCHEDULED'',
         tags = {''daily_post''}\<rparr>,
        \<lparr>at_time = (11, 0), next_run = 2100,
         job_func = SendNotification ''Upcoming Post'' ''A SCHEDULED post is at 12:00'',
         tags = {''notify_daily_post''}\<rparr>]\<rparr>,
    True)"
  by code_simp

subsection \<open>The claims about the job table\<close>

text \<open>
  Claim C5, as amended. For every slot of the plan, with index \<open>i\<close> in the sorted plan,
  \<^verbatim>\<open>schedule_remaining_posts\<close> appends one post job tagged \<open>random_post_i\<close> at the slot's
  clock time (hour and minute) and, right after it, one notice job tagged
  \<open>notify_random_post_i\<close> at the clock time of the slot minus 60 minutes: the same
  minute, one hour earlier on the clock. The notice job is installed whether or not
  that time has passed: as a daily job of the registry it first runs at the next moment
  with that clock time, which is later than \<open>now\<close> and at most a day away, so it is not
  back-dated, and when the time has passed today it runs on the following day.
\<close>

theorem notices_installed:
  "(let post_times = distribute_posts_intelligently rng now
                       (calculate_remaining_posts db now) (calculate_time_remaining_today now);
        table = schedule_remaining_posts rng db now jobs
    in length table = length jobs + 2 * length post_times \<and>
       (\<forall>i<length post_times.
          table ! (length jobs + 2 * i) =
            new_job now (clock (post_times ! i)) (PostCallback ''RANDOM'')
              (''random_post_'' @ str i) \<and>
          table ! (length jobs + 2 * i + 1) =
            new_job now (clock (post_times ! i - 60))
              (SendNotification ''Upcoming Post''
                 (''A RANDOM post is scheduled at '' @ strftime_HM (post_times ! i)))
              (''notify_random_post_'' @ str i) \<and>
          clock (post_times ! i - 60) =
            ((hour (post_times ! i) + 23) mod 24, minute (post_times ! i)) \<and>
          now < next_run (table ! (length jobs + 2 * i + 1)) \<and>
          next_run (table ! (length jobs + 2 * i + 1)) \<le> now + 1440 \<and>
          clock (next_run (table ! (length jobs + 2 * i + 1))) = clock (post_times ! i - 60)))"
proof -
  let ?ts = "distribute_posts_intelligently rng now
               (calculate_remaining_posts db now) (calculate_time_remaining_today now)"
  let ?table = "schedule_remaining_posts rng db now jobs"
  have t: "?table = install_posts now 0 ?ts jobs"
    by (rule schedule_remaining_posts_install)
  have 1: "length ?table = length jobs + 2 * length ?ts"
    unfolding t by (rule install_posts_length)
  have 2: "?table ! (length jobs + 2 * i) =
            new_job now (clock (?ts ! i)) (PostCallback ''RANDOM'') (''random_post_'' @ str i) \<and>
          ?table ! (length jobs + 2 * i + 1) =
            new_job now (clock (?ts ! i - 60))
              (SendNotification ''Upcoming Post''
                 (''A RANDOM post is scheduled at '' @ strftime_HM (?ts ! i)))
              (''notify_random_post_'' @ str i) \<and>
          clock (?ts ! i - 60) = ((hour (?ts ! i) + 23) mod 24, minute (?ts ! i)) \<and>
          now < next_run (?table ! (length jobs + 2 * i + 1)) \<and>
          next_run (?table ! (length jobs + 2 * i + 1)) \<le> now + 1440 \<and>
          clock (next_run (?table ! (length jobs + 2 * i + 1))) = clock (?ts ! i - 60)"
    if "i < length ?ts" for i
  proof -
    note n = install_posts_nth_new [OF that, of now 0 jobs, folded t, unfolded add_0]
    have r: "next_run (?table ! (length jobs + 2 * i + 1)) = first_run now (clock (?ts ! i - 60))"
      unfolding n [THEN conjunct2] by (simp add: new_job_def)
    have c: "clock (?ts ! i - 60) = ((hour (?ts ! i) + 23) mod 24, minute (?ts ! i))"
      by (simp add: clock_def hour_minus_60 minute_minus_60)
    show ?thesis
      using n c first_run_after [OF clock_valid, of now "?ts ! i - 60"]
        clock_first_run [OF clock_valid, of now "?ts ! i - 60"]
      unfolding r by (intro conjI) simp_all
  qed
  show ?thesis
    unfolding Let_def using 1 2 by blast
qed

theorem notices_installed_witness:
  "length (schedule_remaining_posts \<lparr>uniform01 = (\<lambda>_. 1 / 4), randint59 = (\<lambda>_. 10)\<rparr>
        \<lparr>reachable = True, posts = []\<rparr> 1320 []) = 10 \<and>
   schedule_remaining_posts \<lparr>uniform01 = (\<lambda>_. 1 / 4), randint59 = (\<lambda>_. 10)\<rparr>
        \<lparr>reachable = True, posts = []\<rparr> 1320 [] ! 1 =
     \<lparr>at_time = (21, 10), next_run = 2710,
      job_func = SendNotification ''Upcoming Post'' ''A RANDOM post is scheduled at 22:10'',
      tags = {''notify_random_post_0''}\<rparr> \<and>
   1320 < next_run (schedule_remaining_posts \<lparr>uniform01 = (\<lambda>_. 1 / 4), randint59 = (\<lambda>_. 10)\<rparr>
        \<lparr>reachable = True, posts = []\<rparr> 1320 [] ! 1)"
proof -
  let ?R = "\<lparr>uniform01 = (\<lambda>_. 1 / 4), randint59 = (\<lambda>_. 10)\<rparr>"
  let ?db = "\<lparr>reachable = True, posts = []\<rparr>"
  note t = notices_installed [of ?R 1320 ?db "[]", unfolded Let_def example_evening_remaining
      example_evening_plan]
  note l = t [THEN conjunct1, unfolded example_evening_indices]
  note n = t [THEN conjunct2, THEN spec, THEN mp, OF example_evening_indices(4),
      unfolded example_evening_indices add_0 example_evening_notice_job]
  from l n [THEN conjunct2, THEN conjunct1]
    n [THEN conjunct2, THEN conjunct2, THEN conjunct2, THEN conjunct1]
  show ?thesis by (intro conjI)
qed


text \<open>
  Claim C5 as stated fails where it says that a notice whose time has passed is left
  out. In the evening worked out above the first slot is 22:10:30, planned at 22:00.
  Its notice time 21:10 has passed, and the notice job is in the table all the same,
  due the next day at 21:10 (minute 2710).
\<close>

theorem notice_time_passed:
  "schedule_remaining_posts \<lparr>uniform01 = (\<lambda>_. 1 / 4), randint59 = (\<lambda>_. 10)\<rparr>
        \<lparr>reachable = True, posts = []\<rparr> 1320 [] ! 0 =
     \<lparr>at_time = (22, 10), next_run = 1330, job_func = PostCallback ''RANDOM'',
      tags = {''random_post_0''}\<rparr> \<and>
   schedule_remaining_posts \<lparr>uniform01 = (\<lambda>_. 1 / 4), randint59 = (\<lambda>_. 10)\<rparr>
        \<lparr>reachable = True, posts = []\<rparr> 1320 [] ! 1 =
     \<lparr>at_time = (21, 10), next_run = 2710,
      job_func = SendNotification ''Upcoming Post'' ''A RANDOM post is scheduled at 22:10'',
      tags = {''notify_random_post_0''}\<rparr> \<and>
   (21 * 60 + 10 :: real) < 1320"
proof -
  note n = install_posts_nth_new [OF example_evening_indices(4), of 1320 0 "[]",
      folded example_evening_table,
      unfolded example_evening_indices add_0 example_evening_notice_job
        example_evening_post_job]
  have "(21 * 60 + 10 :: real) < 1320" by simp
  with n [THEN conjunct1] n [THEN conjunct2] show ?thesis by (intro conjI)
qed

text \<open>
  Claim C6, as amended. \<^verbatim>\<open>schedule_daily_post\<close> installs the Fixed post job, tagged
  \<open>daily_post\<close>, as a daily job at the configured clock time 12:00, and its notice at
  11:00, whatever the time of day: it does not look at the clock, and nothing is left
  out when 12:00 has passed. \<^verbatim>\<open>initialize_daily_schedule\<close> puts these two jobs first in
  the table. The job is first due at the next 12:00 after \<open>now\<close>: today when 12:00 is
  still ahead, and on the following day otherwise.

  A job is not removed when it fires, and it fires again. A pass of \<^verbatim>\<open>run_pending\<close> at
  \<open>now\<close> removes no job: every job of the table is at its index afterwards with its clock
  time, its function and its tags. A job that is not due is unchanged. A job that is due,
  when the pass returns, has been re-armed: its \<^verbatim>\<open>next_run\<close> is the next moment after
  \<open>now\<close> with its clock time, which is at most a day ahead.
\<close>

theorem daily_post_installed:
  "schedule_daily_post now jobs =
     jobs @ [new_job now (12, 0) (PostCallback ''SCHEDULED'') ''daily_post'',
             new_job now (11, 0)
               (SendNotification ''Upcoming Post'' ''A SCHEDULED post is at 12:00'')
               ''notify_daily_post''] \<and>
   take 2 (initialize_daily_schedule rng db now jobs) =
     [new_job now (12, 0) (PostCallback ''SCHEDULED'') ''daily_post'',
      new_job now (11, 0)
        (SendNotification ''Upcoming Post'' ''A SCHEDULED post is at 12:00'')
        ''notify_daily_post''] \<and>
   next_run (new_job now (12, 0) (PostCallback ''SCHEDULED'') ''daily_post'') =
     (if now < of_int (day_of now) * 1440 + 720 then of_int (day_of now) * 1440 + 720
      else of_int (day_of now) * 1440 + 2160) \<and>
   now < next_run (new_job now (12, 0) (PostCallback ''SCHEDULED'') ''daily_post'') \<and>
   (let table = schedule_jobs st;
        after = schedule_jobs (fst (run_pending env now st))
    in length table \<le> length after \<and>
       (\<forall>i<length table.
          at_time (after ! i) = at_time (table ! i) \<and>
          job_func (after ! i) = job_func (table ! i) \<and>
          tags (after ! i) = tags (table ! i) \<and>
          (\<not> should_run now (table ! i) \<longrightarrow> after ! i = table ! i) \<and>
          (should_run now (table ! i) \<and> snd (run_pending env now st) \<longrightarrow>
             next_run (after ! i) = first_run now (at_time (table ! i))) \<and>
          (fst (at_time (table ! i)) \<le> 23 \<and> snd (at_time (table ! i)) \<le> 59 \<longrightarrow>
             now < first_run now (at_time (table ! i)) \<and>
             first_run now (at_time (table ! i)) \<le> now + 1440)))"
proof -
  let ?daily = "[new_job now (12, 0) (PostCallback ''SCHEDULED'') ''daily_post'',
      new_job now (11, 0)
        (SendNotification ''Upcoming Post'' ''A SCHEDULED post is at 12:00'')
        ''notify_daily_post'']"
  let ?table = "schedule_jobs st"
  let ?after = "schedule_jobs (fst (run_pending env now st))"
  have 1: "schedule_daily_post now jobs = jobs @ ?daily"
    by (rule schedule_daily_post_append)
  have d: "schedule_daily_post now [] = ?daily"
    unfolding schedule_daily_post_append by simp
  have "take (length ?daily) (initialize_daily_schedule rng db now jobs) = ?daily"
    unfolding initialize_install d by (rule install_posts_take)
  then have 2: "take 2 (initialize_daily_schedule rng db now jobs) = ?daily"
    by (simp add: numeral_2_eq_2)
  have 3: "next_run (new_job now (12, 0) (PostCallback ''SCHEDULED'') ''daily_post'') =
     (if now < of_int (day_of now) * 1440 + 720 then of_int (day_of now) * 1440 + 720
      else of_int (day_of now) * 1440 + 2160)"
    by (simp add: new_job_def first_run_noon)
  have 4: "now < next_run (new_job now (12, 0) (PostCallback ''SCHEDULED'') ''daily_post'')"
    using first_run_after(1) [of "(12, 0)" now] by (simp add: new_job_def)
  have 5: "length ?table \<le> length ?after"
  proof (cases "?table = []")
    case True
    then show ?thesis by simp
  next
    case False
    then have "0 < length ?table" by simp
    then show ?thesis by (rule run_pending_keeps(1))
  qed
  have 6: "\<forall>i<length ?table.
          at_time (?after ! i) = at_time (?table ! i) \<and>
          job_func (?after ! i) = job_func (?table ! i) \<and>
          tags (?after ! i) = tags (?table ! i) \<and>
          (\<not> should_run now (?table ! i) \<longrightarrow> ?after ! i = ?table ! i) \<and>
          (should_run now (?table ! i) \<and> snd (run_pending env now st) \<longrightarrow>
             next_run (?after ! i) = first_run now (at_time (?table ! i))) \<and>
          (fst (at_time (?table ! i)) \<le> 23 \<and> snd (at_time (?table ! i)) \<le> 59 \<longrightarrow>
             now < first_run now (at_time (?table ! i)) \<and>
             first_run now (at_time (?table ! i)) \<le> now + 1440)"
  proof (intro allI impI)
    fix i assume i: "i < length ?table"
    note k = run_pending_keeps [OF i, where env = env and now = now]
    show "at_time (?after ! i) = at_time (?table ! i) \<and>
          job_func (?after ! i) = job_func (?table ! i) \<and>
          tags (?after ! i) = tags (?table ! i) \<and>
          (\<not> should_run now (?table ! i) \<longrightarrow> ?after ! i = ?table ! i) \<and>
          (should_run now (?table ! i) \<and> snd (run_pending env now st) \<longrightarrow>
             next_run (?after ! i) = first_run now (at_time (?table ! i))) \<and>
          (fst (at_time (?table ! i)) \<le> 23 \<and> snd (at_time (?table ! i)) \<le> 59 \<longrightarrow>
             now < first_run now (at_time (?table ! i)) \<and>
             first_run now (at_time (?table ! i)) \<le> now + 1440)"
      using k(2-6) first_run_after [of "at_time (?table ! i)" now] by blast
  qed
  from 1 2 3 4 5 6 show ?thesis
    unfolding Let_def by (intro conjI)
qed

theorem daily_post_installed_witness:
  "schedule_daily_post 600 [] =
     [\<lparr>at_time = (12, 0), next_run = 720, job_func = PostCallback ''SCHEDULED'',
       tags = {''daily_post''}\<rparr>,
      \<lparr>at_time = (11, 0), next_run = 660,
       job_func = SendNotification ''Upcoming Post'' ''A SCHEDULED post is at 12:00'',
       tags = {''notify_daily_post''}\<rparr>] \<and>
   should_run 720 (schedule_daily_post 600 [] ! 0) \<and>
   next_run (schedule_jobs (fst (run_pending
       \<lparr>publish = (\<lambda>_. Published), notifier_ok = (\<lambda>_. True),
        randoms = (\<lambda>_. \<lparr>uniform01 = (\<lambda>_. 1 / 4), randint59 = (\<lambda>_. 10)\<rparr>)\<rparr> 720
       \<lparr>database_manager = \<lparr>reachable = True, posts = []\<rparr>,
        schedule_jobs = schedule_daily_post 600 []\<rparr>)) ! 0) =
     first_run 720 (12, 0) \<and>
   first_run 720 (12, 0) = 2160 \<and>
   720 < first_run 720 (12, 0) \<and> first_run 720 (12, 0) \<le> 720 + 1440 \<and>
   700 < next_run (schedule_daily_post 600 [] ! 0) \<and>
   schedule_jobs (fst (run_pending
       \<lparr>publish = (\<lambda>_. Published), notifier_ok = (\<lambda>_. True),
        randoms = (\<lambda>_. \<lparr>uniform01 = (\<lambda>_. 1 / 4), randint59 = (\<lambda>_. 10)\<rparr>)\<rparr> 700
       \<lparr>database_manager = \<lparr>reachable = True, posts = []\<rparr>,
        schedule_jobs = schedule_daily_post 600 []\<rparr>)) ! 0 =
     schedule_daily_post 600 [] ! 0"
proof -
  let ?E = "\<lparr>publish = (\<lambda>_. Published), notifier_ok = (\<lambda>_. True),
        randoms = (\<lambda>_. \<lparr>uniform01 = (\<lambda>_. 1 / 4), randint59 = (\<lambda>_. 10)\<rparr>)\<rparr>"
  let ?st = "\<lparr>database_manager = \<lparr>reachable = True, posts = []\<rparr>,
        schedule_jobs = schedule_daily_post 600 []\<rparr>"
  have f: "first_run 600 (12, 0) = 720" "first_run 600 (11, 0) = 660"
    "first_run 720 (12, 0) = 2160"
    by (simp_all add: first_run_def day_of_def)
  have t: "schedule_daily_post 600 [] =
     [\<lparr>at_time = (12, 0), next_run = 720, job_func = PostCallback ''SCHEDULED'',
       tags = {''daily_post''}\<rparr>,
      \<lparr>at_time = (11, 0), next_run = 660,
       job_func = SendNotification ''Upcoming Post'' ''A SCHEDULED post is at 12:00'',
       tags = {''notify_daily_post''}\<rparr>]"
    using daily_post_installed [of 600 "[]", THEN conjunct1] f by (simp add: new_job_def)
  have s: "should_run 720 (schedule_daily_post 600 [] ! 0)"
    unfolding t by (simp add: should_run_def)
  have r: "snd (run_pending ?E 720 ?st)"
    unfolding example_noon_pass by simp
  have i: "0 < length (schedule_jobs ?st)"
    by (simp add: t)
  have a: "at_time (schedule_daily_post 600 [] ! 0) = (12, 0)"
    unfolding t by simp
  note u = daily_post_installed [of 720 "[]" _ _ ?st ?E, unfolded Let_def,
      THEN conjunct2, THEN conjunct2, THEN conjunct2, THEN conjunct2, THEN conjunct2,
      THEN spec, THEN mp, OF i]
  have 1: "next_run (schedule_jobs (fst (run_pending ?E 720 ?st)) ! 0) = first_run 720 (12, 0)"
    using u [THEN conjunct2, THEN conjunct2, THEN conjunct2, THEN conjunct2, THEN conjunct1]
      s r a by simp
  have 2: "720 < first_run 720 (12, 0) \<and> first_run 720 (12, 0) \<le> 720 + 1440"
    using u [THEN conjunct2, THEN conjunct2, THEN conjunct2, THEN conjunct2, THEN conjunct2]
      a by simp
  have n: "700 < next_run (schedule_daily_post 600 [] ! 0)"
    unfolding t by simp
  then have n': "\<not> should_run 700 (schedule_jobs ?st ! 0)"
    by (simp add: should_run_def)
  note v = daily_post_installed [of 700 "[]" _ _ ?st ?E, unfolded Let_def,
      THEN conjunct2, THEN conjunct2, THEN conjunct2, THEN conjunct2, THEN conjunct2,
      THEN spec, THEN mp, OF i]
  have 3: "schedule_jobs (fst (run_pending ?E 700 ?st)) ! 0 = schedule_daily_post 600 [] ! 0"
    using v [THEN conjunct2, THEN conjunct2, THEN conjunct2, THEN conjunct1, THEN mp, OF n']
    by simp
  from t s 1 f(3) 2 [THEN conjunct1] 2 [THEN conjunct2] n 3 show ?thesis by (intro conjI)
qed

text \<open>
  Claim C6 as stated fails in both halves. After noon: initialised at 13:00 (minute
  780), the table holds the Fixed post job although 12:00 has passed, and the job is due
  at 12:00 of the following day (minute 2160). At noon: the Fixed post job installed at
  10:00 is due at 12:00 (minute 720); the pass of 12:00 fires it, the post is logged, and
  the job is still first in the table, re-armed for 12:00 of the following day.
\<close>

theorem daily_post_after_noon:
  "initialize_daily_schedule \<lparr>uniform01 = (\<lambda>_. 1 / 4), randint59 = (\<lambda>_. 10)\<rparr>
     \<lparr>reachable = True, posts = []\<rparr> 780 [] ! 0 =
     \<lparr>at_time = (12, 0), next_run = 2160, job_func = PostCallback ''SCHEDULED'',
      tags = {''daily_post''}\<rparr> \<and>
   (12 * 60 :: real) < 780 \<and> (2160 :: real) = 1440 + 12 * 60 \<and>
   schedule_daily_post 600 [] ! 0 =
     \<lparr>at_time = (12, 0), next_run = 720, job_func = PostCallback ''SCHEDULED'',
      tags = {''daily_post''}\<rparr> \<and>
   schedule_jobs (fst (run_pending
       \<lparr>publish = (\<lambda>_. Published), notifier_ok = (\<lambda>_. True),
        randoms = (\<lambda>_. \<lparr>uniform01 = (\<lambda>_. 1 / 4), randint59 = (\<lambda>_. 10)\<rparr>)\<rparr> 720
       \<lparr>database_manager = \<lparr>reachable = True, posts = []\<rparr>,
        schedule_jobs = schedule_daily_post 600 []\<rparr>)) ! 0 =
     \<lparr>at_time = (12, 0), next_run = 2160, job_func = PostCallback ''SCHEDULED'',
      tags = {''daily_post''}\<rparr> \<and>
   posts (database_manager (fst (run_pending
       \<lparr>publish = (\<lambda>_. Published), notifier_ok = (\<lambda>_. True),
        randoms = (\<lambda>_. \<lparr>uniform01 = (\<lambda>_. 1 / 4), randint59 = (\<lambda>_. 10)\<rparr>)\<rparr> 720
       \<lparr>database_manager = \<lparr>reachable = True, posts = []\<rparr>,
        schedule_jobs = schedule_daily_post 600 []\<rparr>))) =
     [\<lparr>row_post_type = ''SCHEDULED'', row_timestamp = 720, row_status = SUCCESS\<rparr>]"
proof -
  have f: "first_run 780 (12, 0) = 2160" "first_run 600 (12, 0) = 720"
    by (simp_all add: first_run_def day_of_def)
  have "0 < length (schedule_daily_post 780 [])"
    by (simp add: schedule_daily_post_append)
  from install_posts_nth_old [OF this]
  have "initialize_daily_schedule \<lparr>uniform01 = (\<lambda>_. 1 / 4), randint59 = (\<lambda>_. 10)\<rparr>
     \<lparr>reachable = True, posts = []\<rparr> 780 [] ! 0 = schedule_daily_post 780 [] ! 0"
    unfolding initialize_install .
  then have 1: "initialize_daily_schedule \<lparr>uniform01 = (\<lambda>_. 1 / 4), randint59 = (\<lambda>_. 10)\<rparr>
     \<lparr>reachable = True, posts = []\<rparr> 780 [] ! 0 =
     \<lparr>at_time = (12, 0), next_run = 2160, job_func = PostCallback ''SCHEDULED'',
      tags = {''daily_post''}\<rparr>"
    by (simp add: schedule_daily_post_append new_job_def f)
  have 2: "(12 * 60 :: real) < 780" "(2160 :: real) = 1440 + 12 * 60"
    by simp_all
  have 3: "schedule_daily_post 600 [] ! 0 =
     \<lparr>at_time = (12, 0), next_run = 720, job_func = PostCallback ''SCHEDULED'',
      tags = {''daily_post''}\<rparr>"
    by (simp add: schedule_daily_post_append new_job_def f)
  have 4: "schedule_jobs (fst (run_pending
       \<lparr>publish = (\<lambda>_. Published), notifier_ok = (\<lambda>_. True),
        randoms = (\<lambda>_. \<lparr>uniform01 = (\<lambda>_. 1 / 4), randint59 = (\<lambda>_. 10)\<rparr>)\<rparr> 720
       \<lparr>database_manager = \<lparr>reachable = True, posts = []\<rparr>,
        schedule_jobs = schedule_daily_post 600 []\<rparr>)) ! 0 =
     \<lparr>at_time = (12, 0), next_run = 2160, job_func = PostCallback ''SCHEDULED'',
      tags = {''daily_post''}\<rparr>"
    unfolding example_noon_pass by simp
  have 5: "posts (database_manager (fst (run_pending
       \<lparr>publish = (\<lambda>_. Published), notifier_ok = (\<lambda>_. True),
        randoms = (\<lambda>_. \<lparr>uniform01 = (\<lambda>_. 1 / 4), randint59 = (\<lambda>_. 10)\<rparr>)\<rparr> 720
       \<lparr>database_manager = \<lparr>reachable = True, posts = []\<rparr>,
        schedule_jobs = schedule_daily_post 600 []\<rparr>))) =
     [\<lparr>row_post_type = ''SCHEDULED'', row_timestamp = 720, row_status = SUCCESS\<rparr>]"
    unfolding example_noon_pass by simp
  from 1 2 3 4 5 show ?thesis by (intro conjI)
qed

text \<open>
  Claim C3, as amended. When the quota read fails with a driver error,
  \<^verbatim>\<open>get_today_posts_count\<close> logs it and returns 0, so planning completes without raising
  and \<^verbatim>\<open>calculate_remaining_posts\<close> is the full daily quota of five: the engine installs
  the plan for five slots, five more Opportunistic post jobs whenever time is left in
  the day.
\<close>

theorem quota_failure_full_plan:
  assumes "\<not> reachable db"
  shows
    "get_today_posts_count db now post_type = 0 \<and>
     calculate_remaining_posts db now = RANDOM_POSTS_PER_DAY \<and>
     schedule_remaining_posts rng db now jobs =
       install_posts now 0
         (distribute_posts_intelligently rng now 5 (calculate_time_remaining_today now)) jobs \<and>
     (0 < calculate_time_remaining_today now \<longrightarrow>
        length (filter (\<lambda>j. job_func j = PostCallback ''RANDOM'')
                  (schedule_remaining_posts rng db now jobs)) =
        length (filter (\<lambda>j. job_func j = PostCallback ''RANDOM'') jobs) + 5)"
proof -
  note r = remaining_unreachable [OF assms, of now]
  have 1: "get_today_posts_count db now post_type = 0"
    using assms by (rule count_unreachable)
  have 2: "calculate_remaining_posts db now = RANDOM_POSTS_PER_DAY"
    unfolding r by (simp add: RANDOM_POSTS_PER_DAY_def)
  have 3: "schedule_remaining_posts rng db now jobs =
       install_posts now 0
         (distribute_posts_intelligently rng now 5 (calculate_time_remaining_today now)) jobs"
    unfolding schedule_remaining_posts_install r ..
  have 4: "0 < calculate_time_remaining_today now \<longrightarrow>
        length (filter (\<lambda>j. job_func j = PostCallback ''RANDOM'')
                  (schedule_remaining_posts rng db now jobs)) =
        length (filter (\<lambda>j. job_func j = PostCallback ''RANDOM'') jobs) + 5"
  proof
    assume "0 < calculate_time_remaining_today now"
    then have "length (distribute_posts_intelligently rng now 5
                 (calculate_time_remaining_today now)) = nat 5"
      by (intro plan_length) simp_all
    then show "length (filter (\<lambda>j. job_func j = PostCallback ''RANDOM'')
                  (schedule_remaining_posts rng db now jobs)) =
        length (filter (\<lambda>j. job_func j = PostCallback ''RANDOM'') jobs) + 5"
      unfolding 3 install_posts_random_count by simp
  qed
  from 1 2 3 4 show ?thesis by (intro conjI)
qed

theorem quota_failure_full_plan_witness:
  "\<not> reachable \<lparr>reachable = False, posts = []\<rparr> \<and>
   calculate_remaining_posts \<lparr>reachable = False, posts = []\<rparr> 780 = RANDOM_POSTS_PER_DAY \<and>
   length (filter (\<lambda>j. job_func j = PostCallback ''RANDOM'')
             (schedule_remaining_posts \<lparr>uniform01 = (\<lambda>_. 1 / 4), randint59 = (\<lambda>_. 10)\<rparr>
                \<lparr>reachable = False, posts = []\<rparr> 780 [])) =
     length (filter (\<lambda>j. job_func j = PostCallback ''RANDOM'') ([] :: job list)) + 5"
proof -
  have u: "\<not> reachable \<lparr>reachable = False, posts = []\<rparr>"
    by simp
  note t = quota_failure_full_plan [OF u, of 780 None
      "\<lparr>uniform01 = (\<lambda>_. 1 / 4), randint59 = (\<lambda>_. 10)\<rparr>" "[]"]
  from u t [THEN conjunct2, THEN conjunct1]
    t [THEN conjunct2, THEN conjunct2, THEN conjunct2, THEN mp, OF example_afternoon_hours]
  show ?thesis by (intro conjI)
qed

text \<open>
  Claim C3 as stated fails: with the database unreachable at 13:00 and an empty table,
  planning installs ten jobs (five posts and their notices), the first of them a
  \<^verbatim>\<open>RANDOM\<close> post job.
\<close>

theorem quota_failure_installs_jobs:
  "length (schedule_remaining_posts \<lparr>uniform01 = (\<lambda>_. 1 / 4), randint59 = (\<lambda>_. 10)\<rparr>
             \<lparr>reachable = False, posts = []\<rparr> 780 []) = 10 \<and>
   job_func (schedule_remaining_posts \<lparr>uniform01 = (\<lambda>_. 1 / 4), randint59 = (\<lambda>_. 10)\<rparr>
             \<lparr>reachable = False, posts = []\<rparr> 780 [] ! 0) = PostCallback ''RANDOM''"
proof -
  let ?R = "\<lparr>uniform01 = (\<lambda>_. 1 / 4), randint59 = (\<lambda>_. 10)\<rparr>"
  let ?plan = "distribute_posts_intelligently ?R 780 5 (calculate_time_remaining_today 780)"
  have r: "calculate_remaining_posts \<lparr>reachable = False, posts = []\<rparr> 780 = 5"
    by (rule remaining_unreachable) simp
  have l: "length ?plan = 5"
    using plan_length [OF _ example_afternoon_hours, of 5 ?R 780] by simp
  have 1: "length (schedule_remaining_posts ?R \<lparr>reachable = False, posts = []\<rparr> 780 []) = 10"
    unfolding schedule_remaining_posts_install r install_posts_length l by simp
  have "0 < length ?plan"
    unfolding l by simp
  from install_posts_nth_new [OF this, of 780 0 "[]", THEN conjunct1]
  have 2: "job_func (schedule_remaining_posts ?R \<lparr>reachable = False, posts = []\<rparr> 780 [] ! 0) =
             PostCallback ''RANDOM''"
    unfolding schedule_remaining_posts_install r by (simp add: new_job_def)
  from 1 2 show ?thesis by (intro conjI)
qed

text \<open>
  What \<^verbatim>\<open>schedule.clear(tag)\<close> does: no job that carries the tag itself remains, the jobs
  that remain are in their order, and a job none of whose tags begins with the tag is
  never removed; the Fixed job and its notice pass through \<^verbatim>\<open>clear_random_posts\<close>.
\<close>

lemma clear_by_tag:
  "clear_random_posts jobs = clear (Some ''random_post'') jobs \<and>
   (\<forall>j\<in>set (clear (Some tag) jobs). tag \<notin> tags j) \<and>
   filter (\<lambda>j. \<not> (\<exists>t\<in>tags j. prefix tag t)) (clear (Some tag) jobs) =
     filter (\<lambda>j. \<not> (\<exists>t\<in>tags j. prefix tag t)) jobs \<and>
   subseq (clear (Some tag) jobs) jobs \<and>
   clear_random_posts (schedule_daily_post now jobs) =
     schedule_daily_post now (clear_random_posts jobs)"
proof -
  have 1: "clear_random_posts jobs = clear (Some ''random_post'') jobs"
    by (simp add: clear_random_posts_def)
  have 2: "clear (Some tag) jobs = filter (\<lambda>j. tag \<notin> tags j) jobs"
    by (simp add: clear_def)
  have 3: "\<forall>j\<in>set (clear (Some tag) jobs). tag \<notin> tags j"
    unfolding 2 by simp
  have 4: "filter (\<lambda>j. \<not> (\<exists>t\<in>tags j. prefix tag t)) (clear (Some tag) jobs) =
     filter (\<lambda>j. \<not> (\<exists>t\<in>tags j. prefix tag t)) jobs"
    unfolding 2 filter_filter by (rule filter_cong) auto
  have 5: "subseq (clear (Some tag) jobs) jobs"
    unfolding 2 by simp
  note 6 = clear_random_posts_daily [of now jobs]
  from 1 3 4 5 6 show ?thesis by (intro conjI)
qed

text \<open>
  Claim C8. Cancelling the tag \<open>random_post\<close> is to remove all jobs tagged
  \<open>random_post_0\<close>, \<open>random_post_1\<close> and so on, and \<^verbatim>\<open>clear_random_posts\<close> is documented as
  \<^verbatim>\<open>Clear only random post schedules\<close>. It removes none of them: the scheduler tags its
  jobs \<open>random_post_0\<close>, \<open>random_post_1\<close> and so on, none of them the tag \<open>random_post\<close>
  itself, and the registry removes by membership in the tag set, not by prefix. Below,
  the table is the one \<^verbatim>\<open>schedule_remaining_posts\<close> installs at 22:00 with no post logged;
  \<^verbatim>\<open>clear_random_posts\<close> leaves the whole table as it is, and its first job is the
  \<^verbatim>\<open>RANDOM\<close> post job tagged \<open>random_post_0\<close>, a tag that begins with \<open>random_post\<close>.
\<close>

theorem random_posts_not_cleared:
  "clear_random_posts
     (schedule_remaining_posts \<lparr>uniform01 = (\<lambda>_. 1 / 4), randint59 = (\<lambda>_. 10)\<rparr>
        \<lparr>reachable = True, posts = []\<rparr> 1320 []) =
   schedule_remaining_posts \<lparr>uniform01 = (\<lambda>_. 1 / 4), randint59 = (\<lambda>_. 10)\<rparr>
        \<lparr>reachable = True, posts = []\<rparr> 1320 [] \<and>
   schedule_remaining_posts \<lparr>uniform01 = (\<lambda>_. 1 / 4), randint59 = (\<lambda>_. 10)\<rparr>
        \<lparr>reachable = True, posts = []\<rparr> 1320 [] ! 0 =
     \<lparr>at_time = (22, 10), next_run = 1330, job_func = PostCallback ''RANDOM'',
      tags = {''random_post_0''}\<rparr> \<and>
   prefix ''random_post'' ''random_post_0''"
proof -
  have e: "clear_random_posts [] = []"
    by (simp add: clear_random_posts_def clear_def)
  have 1: "clear_random_posts
     (schedule_remaining_posts \<lparr>uniform01 = (\<lambda>_. 1 / 4), randint59 = (\<lambda>_. 10)\<rparr>
        \<lparr>reachable = True, posts = []\<rparr> 1320 []) =
   schedule_remaining_posts \<lparr>uniform01 = (\<lambda>_. 1 / 4), randint59 = (\<lambda>_. 10)\<rparr>
        \<lparr>reachable = True, posts = []\<rparr> 1320 []"
    unfolding schedule_remaining_posts_install clear_random_posts_install e ..
  note n = install_posts_nth_new [OF example_evening_indices(4), of 1320 0 "[]",
      folded example_evening_table,
      unfolded example_evening_indices add_0 example_evening_post_job]
  have 3: "prefix ''random_post'' ''random_post_0''"
    by simp
  from 1 n [THEN conjunct1] 3 show ?thesis by (intro conjI)
qed

text \<open>
  Claim C2. After a successful \<^verbatim>\<open>RANDOM\<close> post the callback is to read the quota again,
  cancel the Opportunistic jobs installed before and install the new plan, so that the
  pending Opportunistic post jobs are as many as the new remainder; the Fixed job is not
  touched, and after a failed post nothing is planned and the table stays as it is.
  The code reads the quota again, leaves the Fixed job alone and does not plan after a
  failure (\<open>post_callback_no_replan\<close>), but it cancels nothing: the new plan is appended
  to the table as it is (\<open>post_callback_appends\<close>). Below, the table is the one installed
  at 22:00 with no post logged, holding five \<^verbatim>\<open>RANDOM\<close> post jobs; the callback of 22:10
  publishes, the new remainder is four, and the table then holds nine \<^verbatim>\<open>RANDOM\<close> post
  jobs, the old table being its beginning.
\<close>

theorem replan_keeps_old_jobs:
  "(let st = \<lparr>database_manager = \<lparr>reachable = True, posts = []\<rparr>,
              schedule_jobs =
                initialize_daily_schedule \<lparr>uniform01 = (\<lambda>_. 1 / 4), randint59 = (\<lambda>_. 10)\<rparr>
                  \<lparr>reachable = True, posts = []\<rparr> 1320 []\<rparr>;
        st' = fst (post_callback \<lparr>uniform01 = (\<lambda>_. 1 / 4), randint59 = (\<lambda>_. 10)\<rparr>
                     Published True 1330 ''RANDOM'' st)
    in length (filter (\<lambda>j. job_func j = PostCallback ''RANDOM'') (schedule_jobs st)) = 5 \<and>
       calculate_remaining_posts (database_manager st') 1330 = 4 \<and>
       length (filter (\<lambda>j. job_func j = PostCallback ''RANDOM'') (schedule_jobs st')) = 9 \<and>
       take (length (schedule_jobs st)) (schedule_jobs st') = schedule_jobs st)"
proof -
  let ?R = "\<lparr>uniform01 = (\<lambda>_. 1 / 4), randint59 = (\<lambda>_. 10)\<rparr>"
  let ?st = "\<lparr>database_manager = \<lparr>reachable = True, posts = []\<rparr>,
              schedule_jobs = initialize_daily_schedule ?R \<lparr>reachable = True, posts = []\<rparr> 1320 []\<rparr>"
  let ?st' = "fst (post_callback ?R Published True 1330 ''RANDOM'' ?st)"
  have 1: "length (filter (\<lambda>j. job_func j = PostCallback ''RANDOM'') (schedule_jobs ?st)) = 5"
    using example_evening_count by simp
  have d: "database_manager ?st' =
     \<lparr>reachable = True,
      posts = [\<lparr>row_post_type = ''RANDOM'', row_timestamp = 1330, row_status = SUCCESS\<rparr>]\<rparr>"
    unfolding post_callback_database using example_evening_logged by simp
  have 2: "calculate_remaining_posts (database_manager ?st') 1330 = 4"
    unfolding d by (rule example_evening_remaining_after)
  have j: "schedule_jobs ?st' =
     install_posts 1330 0
       (distribute_posts_intelligently ?R 1330 4 (calculate_time_remaining_today 1330))
       (schedule_jobs ?st)"
    unfolding post_callback_appends using example_evening_logged example_evening_remaining_after
    by simp
  have l: "length (distribute_posts_intelligently ?R 1330 4 (calculate_time_remaining_today 1330)) = 4"
    using plan_length [OF _ example_evening_hours_after, of 4 ?R 1330] by simp
  have 3: "length (filter (\<lambda>j. job_func j = PostCallback ''RANDOM'') (schedule_jobs ?st')) = 9"
    unfolding j install_posts_random_count l using 1 by simp
  have 4: "take (length (schedule_jobs ?st)) (schedule_jobs ?st') = schedule_jobs ?st"
    unfolding j by (rule install_posts_take)
  from 1 2 3 4 show ?thesis
    unfolding Let_def by (intro conjI)
qed

end
